theory Spec2Isabelle
  imports Complex_Main
begin

section \<open>Values of the Python runtime\<close>

text \<open>
  A Python \<open>str\<close> is a sequence of Unicode code points, so a string is a list of
  code points (natural numbers); \<open>ustr\<close> reads an ASCII literal. The Arabic-Indic
  digits are the code points 1632 to 1641 (U+0660 to U+0669), the Arabic decimal
  separator is 1643 (U+066B) and the Arabic thousands separator is 1644 (U+066C).
\<close>

type_synonym pystr = "nat list"

definition ustr :: "string \<Rightarrow> pystr" where
  "ustr s = map of_char s"

text \<open>
  A Python \<open>float\<close>: \<open>Fin r\<close> is the finite float whose value is the real number
  \<open>r\<close>, and the three other values are the non-finite floats. The operations of
  etl.py that produce a float round their exact result to binary64 (\<open>b64\<close> below).
  The sign of a zero is not modelled: \<open>-0.0\<close> and \<open>0.0\<close> are equal in Python.
\<close>

datatype pyfloat = Fin real | PosInf | NegInf | NaN

text \<open>\<open>str(n)\<close> for an integer, as used by the f-strings of the program.\<close>

fun str_of_nat :: "nat \<Rightarrow> pystr" where
  "str_of_nat n = (if n < 10 then [48 + n] else str_of_nat (n div 10) @ [48 + n mod 10])"

declare str_of_nat.simps [simp del]

definition str_of_int :: "int \<Rightarrow> pystr" where
  "str_of_int i = (if i < 0 then 45 # str_of_nat (nat (- i)) else str_of_nat (nat i))"

section \<open>Character classes and case mapping\<close>

text \<open>
  \<open>str.isspace\<close>, which is also the class \<open>\s\<close> of the \<open>re\<close> module and the
  set of characters removed by \<open>str.strip()\<close> and split on by \<open>str.split()\<close>.
\<close>

definition is_space :: "nat \<Rightarrow> bool" where
  "is_space c \<longleftrightarrow>
     (9 \<le> c \<and> c \<le> 13) \<or> (28 \<le> c \<and> c \<le> 32) \<or> c = 133 \<or> c = 160 \<or> c = 5760 \<or>
     (8192 \<le> c \<and> c \<le> 8202) \<or> c = 8232 \<or> c = 8233 \<or> c = 8239 \<or> c = 8287 \<or> c = 12288"

text \<open>
  The decimal digits of Unicode (category Nd, version 14.0): each script has ten
  consecutive code points, listed here by the code point of its zero. \<open>int()\<close>,
  \<open>float()\<close> and the class \<open>\d\<close> accept all of them.
\<close>

definition digit_zeros :: "nat list" where
  "digit_zeros = [48, 1632, 1776, 1984, 2406, 2534, 2662, 2790, 2918, 3046, 3174, 3302,
     3430, 3558, 3664, 3792, 3872, 4160, 4240, 6112, 6160, 6470, 6608, 6784, 6800, 6992,
     7088, 7232, 7248, 42528, 43216, 43264, 43472, 43504, 43600, 44016, 65296, 66720,
     68912, 69734, 69872, 69942, 70096, 70384, 70736, 70864, 71248, 71360, 71472, 71904,
     72016, 72784, 73040, 73120, 92768, 92864, 93008, 120782, 120792, 120802, 120812,
     120822, 123200, 123632, 125264, 130032]"

definition digit_value :: "nat \<Rightarrow> nat option" where
  "digit_value c =
     (case find (\<lambda>z. z \<le> c \<and> c < z + 10) digit_zeros of
        None \<Rightarrow> None
      | Some z \<Rightarrow> Some (c - z))"

text \<open>
  The Unicode character database of the interpreter decides which code points beyond
  ASCII are alphanumeric and how they change case. It is not part of the program, so
  it is a parameter: \<open>uc_alnum c\<close> is \<open>str.isalnum\<close> of the code point \<open>c\<close>,
  \<open>uc_upper c\<close> is its full upper-case mapping (one or more code points), and
  \<open>uc_lower s i\<close> is the lower-case mapping of the code point at position \<open>i\<close> of
  the string \<open>s\<close> (the mapping of the Greek capital sigma depends on its
  neighbours). The tables are consulted for code points from 128 on only; on ASCII
  the functions below are fixed, as in every version of the database.
\<close>

record unicode =
  uc_alnum :: "nat \<Rightarrow> bool"
  uc_upper :: "nat \<Rightarrow> pystr"
  uc_lower :: "pystr \<Rightarrow> nat \<Rightarrow> pystr"

text \<open>\<open>str.upper()\<close> and \<open>str.lower()\<close>.\<close>

definition py_upper :: "unicode \<Rightarrow> pystr \<Rightarrow> pystr" where
  "py_upper U s =
     concat (map (\<lambda>c. if c < 128 then [if 97 \<le> c \<and> c \<le> 122 then c - 32 else c]
                       else uc_upper U c) s)"

definition py_lower :: "unicode \<Rightarrow> pystr \<Rightarrow> pystr" where
  "py_lower U s =
     concat (map (\<lambda>i. if s ! i < 128
                       then [if 65 \<le> s ! i \<and> s ! i \<le> 90 then s ! i + 32 else s ! i]
                       else uc_lower U s i) [0..<length s])"

text \<open>
  The class \<open>\w\<close> of the \<open>re\<close> module on \<open>str\<close> patterns: an alphanumeric code
  point or the underscore.
\<close>

definition is_word :: "unicode \<Rightarrow> nat \<Rightarrow> bool" where
  "is_word U c \<longleftrightarrow>
     (if c < 128
      then (48 \<le> c \<and> c \<le> 57) \<or> (65 \<le> c \<and> c \<le> 90) \<or> (97 \<le> c \<and> c \<le> 122) \<or> c = 95
      else uc_alnum U c)"

text \<open>
  An excerpt of the database (Unicode 14.0), for the evaluation of examples: the
  letters U+00E9, U+00C9 (e with acute), U+00FC, U+00DC (u with diaeresis), U+00DF
  (sharp s), U+017F (long s), U+0130 (capital I with dot) and U+0131 (dotless i) with
  their properties. It is used on texts whose code points from 128 on are among these
  eight only.
\<close>

definition sample_db :: unicode where
  "sample_db =
     \<lparr> uc_alnum = (\<lambda>c. c = 233 \<or> c = 201 \<or> c = 252 \<or> c = 220 \<or> c = 223 \<or> c = 383 \<or>
                       c = 304 \<or> c = 305),
       uc_upper = (\<lambda>c. if c = 233 then [201] else if c = 252 then [220]
                        else if c = 223 then [83, 83] else if c = 383 then [83]
                        else if c = 305 then [73] else [c]),
       uc_lower = (\<lambda>s i. if s ! i = 201 then [233] else if s ! i = 220 then [252]
                          else if s ! i = 304 then [105, 775] else [s ! i]) \<rparr>"

section \<open>Data model (schema.py, and the dictionary built by etl.normalize)\<close>

text \<open>One entry of the \<open>items\<close> list of the canonical invoice.\<close>

record item =
  description :: pystr
  quantity :: int
  unit_price :: pyfloat
  category :: pystr

text \<open>
  The dictionary returned by \<open>normalize\<close>; \<open>None\<close> is Python's \<open>None\<close>.
\<close>

record canonical =
  vendor_name :: pystr
  invoice_number :: pystr
  date :: "pystr option"
  tax_id :: pystr
  items :: "item list"
  currency :: pystr
  total_amount :: "pyfloat option"
  line_count :: int
  full_text :: pystr

section \<open>anomaly.py\<close>

text \<open>
  \<open>_safe_float\<close> and \<open>_safe_int\<close>: \<open>float(None)\<close> and \<open>int(None)\<close> raise
  \<open>TypeError\<close>, which yields the default; a float or an int is returned as it is.
\<close>

definition safe_float :: "pyfloat option \<Rightarrow> pyfloat" where
  "safe_float x = (case x of None \<Rightarrow> Fin 0 | Some f \<Rightarrow> f)"

definition safe_int :: "int option \<Rightarrow> int" where
  "safe_int x = (case x of None \<Rightarrow> 0 | Some i \<Rightarrow> i)"

text \<open>\<open>np.clip(x, lo, hi)\<close> is \<open>minimum(maximum(x, lo), hi)\<close>.\<close>

definition clip :: "real \<Rightarrow> real \<Rightarrow> real \<Rightarrow> real" where
  "clip x lo hi = min (max x lo) hi"

definition reason_duplicate :: pystr where
  "reason_duplicate = ustr ''Possible duplicate invoice (same vendor+number).''"

definition reason_missing :: "int \<Rightarrow> pystr" where
  "reason_missing missing_count = str_of_int missing_count @ ustr '' critical fields missing.''"

definition reason_consistent :: pystr where
  "reason_consistent = ustr ''Looks consistent with past invoices.''"

text \<open>
  \<open>score_anomaly\<close>. The trained IsolationForest is an artifact loaded from disk; its
  \<open>decision_function\<close> on the two features \<open>[total_amount, line_count]\<close> is the
  parameter \<open>decision_function\<close>. The two mutated locals \<open>risk\<close> and \<open>reasons\<close>
  are threaded through the statements in source order.
\<close>

definition score_anomaly ::
  "(pyfloat \<Rightarrow> int \<Rightarrow> real) \<Rightarrow> canonical \<Rightarrow> bool \<Rightarrow> int \<Rightarrow> real \<times> pystr list" where
  "score_anomaly decision_function nrm is_duplicate missing_count =
     (let amt = safe_float (total_amount nrm);
          lc = safe_int (Some (line_count nrm));
          raw = decision_function amt lc;
          base_risk = clip (0.5 - raw) 0.0 1.0;
          risk = base_risk;
          reasons = [];
          (risk, reasons) =
            (if is_duplicate then (risk + 0.25, reasons @ [reason_duplicate])
             else (risk, reasons));
          (risk, reasons) =
            (if missing_count > 0
             then (risk + 0.10 * real_of_int (min missing_count 5),
                   reasons @ [reason_missing missing_count])
             else (risk, reasons));
          risk = clip risk 0.0 0.99;
          reasons =
            (if risk < 0.15 \<and> reasons = [] then reasons @ [reason_consistent]
             else reasons)
      in (risk, reasons))"

text \<open>An invoice with no items, used to evaluate the definitions at a concrete input.\<close>

definition empty_invoice :: canonical where
  "empty_invoice = \<lparr> vendor_name = ustr ''Acme'', invoice_number = ustr ''A-1'',
     date = None, tax_id = ustr ''DE123'', items = [], currency = ustr ''EUR'',
     total_amount = None, line_count = 0, full_text = ustr ''Acme A-1 DE123 EUR'' \<rparr>"

section \<open>The regular expressions of tax.py\<close>

text \<open>
  The fragment of Python's \<open>re\<close> syntax that the patterns of tax.py use. All of them
  are compiled with \<open>re.I\<close>, so a literal matches case-insensitively.
\<close>

datatype cls = Space | DashSpace | Dot

datatype rx =
    Eps
  | Chr nat
  | Star cls
  | Seq rx rx
  | Alt rx rx
  | Opt rx
  | WordB

text \<open>
  A pattern letter (always lower case in tax.py) matches itself, its upper-case form
  and the code points that \<open>re.I\<close> folds onto it: U+0130 and U+0131 onto \<open>i\<close>,
  U+212A onto \<open>k\<close>, U+017F onto \<open>s\<close>.
\<close>

definition lit_ok :: "nat \<Rightarrow> nat \<Rightarrow> bool" where
  "lit_ok l c \<longleftrightarrow>
     c = l \<or> (97 \<le> l \<and> l \<le> 122 \<and> c + 32 = l) \<or>
     (l = 105 \<and> (c = 304 \<or> c = 305)) \<or> (l = 107 \<and> c = 8490) \<or> (l = 115 \<and> c = 383)"

fun cls_ok :: "cls \<Rightarrow> nat \<Rightarrow> bool" where
  "cls_ok Space c = is_space c"
| "cls_ok DashSpace c = (c = 45 \<or> is_space c)"
| "cls_ok Dot c = (c \<noteq> 10)"

text \<open>
  A position in the searched text: the character before it (if any) and the text from
  it on. \<open>\b\<close> holds where exactly one of the two neighbours is a word character.
\<close>

type_synonym cursor = "nat option \<times> pystr"

definition word_boundary :: "unicode \<Rightarrow> cursor \<Rightarrow> bool" where
  "word_boundary U cur =
     ((case fst cur of None \<Rightarrow> False | Some c \<Rightarrow> is_word U c) \<noteq>
      (case snd cur of [] \<Rightarrow> False | c # cs \<Rightarrow> is_word U c))"

text \<open>Greedy repetition of a character class: the longest run first.\<close>

fun star :: "cls \<Rightarrow> nat option \<Rightarrow> pystr \<Rightarrow> cursor list" where
  "star k p [] = [(p, [])]"
| "star k p (c # cs) = (if cls_ok k c then star k (Some c) cs @ [(p, c # cs)] else [(p, c # cs)])"

text \<open>
  \<open>run U r cur\<close> lists the positions at which a match of \<open>r\<close> starting at \<open>cur\<close> can
  end, in the order in which the backtracking matcher tries them.
\<close>

fun run :: "unicode \<Rightarrow> rx \<Rightarrow> cursor \<Rightarrow> cursor list" where
  "run U Eps cur = [cur]"
| "run U (Chr l) cur =
     (case snd cur of [] \<Rightarrow> [] | c # cs \<Rightarrow> if lit_ok l c then [(Some c, cs)] else [])"
| "run U (Star k) cur = star k (fst cur) (snd cur)"
| "run U (Seq a b) cur = concat (map (run U b) (run U a cur))"
| "run U (Alt a b) cur = run U a cur @ run U b cur"
| "run U (Opt a) cur = run U a cur @ [cur]"
| "run U WordB cur = (if word_boundary U cur then [cur] else [])"

text \<open>
  \<open>pat.search(text)\<close>: the leftmost position with a match; the result is
  \<open>m.group(0)\<close>, the matched text, or \<open>None\<close>.
\<close>

fun search_from :: "unicode \<Rightarrow> rx \<Rightarrow> nat option \<Rightarrow> pystr \<Rightarrow> pystr option" where
  "search_from U r p [] =
     (case run U r (p, []) of [] \<Rightarrow> None | e # es \<Rightarrow> Some [])"
| "search_from U r p (c # cs) =
     (case run U r (p, c # cs) of
        [] \<Rightarrow> search_from U r (Some c) cs
      | e # es \<Rightarrow> Some (take (length (c # cs) - length (snd e)) (c # cs)))"

definition re_search :: "unicode \<Rightarrow> rx \<Rightarrow> pystr \<Rightarrow> pystr option" where
  "re_search U r text = search_from U r None text"

definition seqs :: "rx list \<Rightarrow> rx" where
  "seqs rs = foldr Seq rs Eps"

definition lits :: "string \<Rightarrow> rx" where
  "lits w = seqs (map (\<lambda>c. Chr (of_char c)) w)"

section \<open>tax.py\<close>

text \<open>The demo rate tables, as association lists in source order.\<close>

definition EU_STANDARD :: "(pystr \<times> real) list" where
  "EU_STANDARD =
     [(ustr ''DE'', 0.19), (ustr ''FR'', 0.20), (ustr ''IT'', 0.22), (ustr ''ES'', 0.21),
      (ustr ''NL'', 0.21), (ustr ''BE'', 0.21), (ustr ''AT'', 0.20), (ustr ''PT'', 0.23),
      (ustr ''SE'', 0.25), (ustr ''DK'', 0.25), (ustr ''FI'', 0.25), (ustr ''IE'', 0.23)]"

definition GCC_STANDARD :: "(pystr \<times> real) list" where
  "GCC_STANDARD =
     [(ustr ''AE'', 0.05), (ustr ''SA'', 0.15), (ustr ''BH'', 0.10), (ustr ''OM'', 0.05)]"

definition CURRENCY_TO_GCC :: "(pystr \<times> pystr) list" where
  "CURRENCY_TO_GCC =
     [(ustr ''AED'', ustr ''AE''), (ustr ''SAR'', ustr ''SA''),
      (ustr ''BHD'', ustr ''BH''), (ustr ''OMR'', ustr ''OM'')]"

text \<open>
  \<open>_EXEMPT_PATTERNS\<close>:
  \<^verbatim>\<open>\breverse\s*charge\b\<close>, \<^verbatim>\<open>\barticle\s*196\b\<close>, \<^verbatim>\<open>\bvat[-\s]*exempt\b\<close>.
\<close>

definition EXEMPT_PATTERNS :: "rx list" where
  "EXEMPT_PATTERNS =
     [seqs [WordB, lits ''reverse'', Star Space, lits ''charge'', WordB],
      seqs [WordB, lits ''article'', Star Space, lits ''196'', WordB],
      seqs [WordB, lits ''vat'', Star DashSpace, lits ''exempt'', WordB]]"

text \<open>
  \<open>_ZERO_RATED_PATTERNS\<close>:
  \<^verbatim>\<open>\bzero[-\s]*rated\b\<close>, \<^verbatim>\<open>\bvat\s*0%|\b0%\s*vat\b\<close>,
  \<^verbatim>\<open>\bexport\b.*\b(outside|to)\s*(eu|gcc)\b\<close>,
  \<^verbatim>\<open>\binternational\s*transport(ation)?\b\<close>.
\<close>

definition ZERO_RATED_PATTERNS :: "rx list" where
  "ZERO_RATED_PATTERNS =
     [seqs [WordB, lits ''zero'', Star DashSpace, lits ''rated'', WordB],
      Alt (seqs [WordB, lits ''vat'', Star Space, lits ''0%''])
          (seqs [WordB, lits ''0%'', Star Space, lits ''vat'', WordB]),
      seqs [WordB, lits ''export'', WordB, Star Dot, WordB,
            Alt (lits ''outside'') (lits ''to''), Star Space,
            Alt (lits ''eu'') (lits ''gcc''), WordB],
      seqs [WordB, lits ''international'', Star Space, lits ''transport'',
            Opt (lits ''ation''), WordB]]"

text \<open>
  The record handed to \<open>classify_vat\<close> is a dictionary; the five keys it reads
  (\<open>tax_id\<close>, \<open>currency\<close>, \<open>language\<close>, \<open>raw_text\<close>, \<open>full_text\<close>) hold strings
  or are missing. \<open>get_str d k\<close> is \<open>(d.get(k) or "")\<close>.
\<close>

type_synonym pydict = "string \<rightharpoonup> pystr"

definition get_str :: "pydict \<Rightarrow> string \<Rightarrow> pystr" where
  "get_str d k = (case d k of None \<Rightarrow> [] | Some v \<Rightarrow> v)"

text \<open>\<open>_decide_region_and_rate\<close>: returns (region, rate, country_code_hint).\<close>

definition decide_region_and_rate :: "unicode \<Rightarrow> pydict \<Rightarrow> pystr \<times> real \<times> pystr" where
  "decide_region_and_rate U nrm =
     (let tax_id = py_upper U (get_str nrm ''tax_id'');
          cur = py_upper U (get_str nrm ''currency'');
          language = py_lower U (get_str nrm ''language'');
          cc = take 2 tax_id
      in case map_of EU_STANDARD cc of
           Some r \<Rightarrow> (ustr ''EU'', r, cc)
         | None \<Rightarrow>
        (case map_of GCC_STANDARD cc of
           Some r \<Rightarrow> (ustr ''GCC'', r, cc)
         | None \<Rightarrow>
        (case map_of CURRENCY_TO_GCC cur of
           Some gcc_cc \<Rightarrow>
             (ustr ''GCC'',
              (case map_of GCC_STANDARD gcc_cc of Some r \<Rightarrow> r | None \<Rightarrow> 0.15), gcc_cc)
         | None \<Rightarrow>
        (if language = ustr ''ar'' then (ustr ''GCC'', 0.15, ustr ''GCC'')
         else (ustr ''Unknown'', 0.15, [])))))"

text \<open>The dictionary returned by \<open>classify_vat\<close>.\<close>

record vat_result =
  region :: pystr
  vat :: pystr
  rate :: real
  reason :: pystr

text \<open>
  Each \<open>for pat in ...: m = pat.search(text)\<close> loop: the matched text of the
  first pattern of the list that matches, or \<open>None\<close> when the loop falls through.
\<close>

fun first_match :: "unicode \<Rightarrow> rx list \<Rightarrow> pystr \<Rightarrow> pystr option" where
  "first_match U [] text = None"
| "first_match U (pat # pats) text =
     (case re_search U pat text of Some m \<Rightarrow> Some m | None \<Rightarrow> first_match U pats text)"

definition vat_text :: "pydict \<Rightarrow> pystr" where
  "vat_text nrm = get_str nrm ''raw_text'' @ ustr '' '' @ get_str nrm ''full_text''"

definition classify_vat :: "unicode \<Rightarrow> pydict \<Rightarrow> vat_result" where
  "classify_vat U nrm =
     (case decide_region_and_rate U nrm of (region', standard_rate, cc_hint) \<Rightarrow>
      let text = vat_text nrm in
     (case first_match U EXEMPT_PATTERNS text of
        Some m \<Rightarrow>
          \<lparr> region = region', vat = ustr ''exempt'', rate = 0.0,
            reason = ustr ''Detected exemption keyword ('' @ [8220] @ m @ [8221] @ ustr '').'' \<rparr>
      | None \<Rightarrow>
     (case first_match U ZERO_RATED_PATTERNS text of
        Some m \<Rightarrow>
          \<lparr> region = (if region' \<noteq> ustr ''Unknown'' then region' else ustr ''Unknown''),
            vat = ustr ''zero-rated'', rate = 0.0,
            reason = ustr ''Detected zero-rated cue ('' @ [8220] @ m @ [8221] @ ustr '').'' \<rparr>
      | None \<Rightarrow>
     (if region' = ustr ''EU'' \<and> map_of EU_STANDARD cc_hint \<noteq> None then
          \<lparr> region = ustr ''EU'', vat = ustr ''standard'',
            rate = the (map_of EU_STANDARD cc_hint),
            reason = ustr ''EU VAT ID prefix '' @ cc_hint @ ustr '' '' @ [8594] @
                     ustr '' apply country standard rate (demo table).'' \<rparr>
      else if region' = ustr ''GCC'' then
          (let rate' = (case map_of GCC_STANDARD cc_hint of Some r \<Rightarrow> r | None \<Rightarrow> standard_rate);
               hint = (if map_of GCC_STANDARD cc_hint \<noteq> None then cc_hint else ustr ''GCC'')
           in \<lparr> region = ustr ''GCC'', vat = ustr ''standard'', rate = rate',
                reason = (if map_of GCC_STANDARD cc_hint \<noteq> None then ustr ''GCC VAT ID''
                          else ustr ''GCC inference'') @
                         ustr '' ('' @ hint @ ustr '') '' @ [8594] @
                         ustr '' apply standard rate (demo table).'' \<rparr>)
      else
          \<lparr> region = ustr ''Unknown'', vat = ustr ''standard'', rate = standard_rate,
            reason = ustr ''Default standard rate for MVP; verify jurisdiction/rules.'' \<rparr>))))"

section \<open>Numbers and dates of the Python runtime\<close>

text \<open>
  The raw quantity and unit price of a line item are a number, a string or \<open>None\<close>
  (schema.py: \<open>Union[int, str]\<close> and \<open>Union[float, str]\<close>).
\<close>

datatype pyval = PNone | PInt int | PFloat pyfloat | PStr pystr

definition py_strip :: "pystr \<Rightarrow> pystr" where
  "py_strip s = rev (dropWhile is_space (rev (dropWhile is_space s)))"

text \<open>
  \<open>int()\<close> and \<open>float()\<close> skip surrounding whitespace, except the four ASCII
  separators U+001C to U+001F, which \<open>str.strip()\<close> does remove.
\<close>

definition num_strip :: "pystr \<Rightarrow> pystr" where
  "num_strip s =
     rev (dropWhile (\<lambda>c. is_space c \<and> \<not> (28 \<le> c \<and> c \<le> 31))
       (rev (dropWhile (\<lambda>c. is_space c \<and> \<not> (28 \<le> c \<and> c \<le> 31)) s)))"

text \<open>
  \<open>digitpart ::= digit (["_"] digit)*\<close>: the digits read and the rest of the text
  (no digit is read when the text does not start with one).
\<close>

fun digitpart :: "pystr \<Rightarrow> nat list \<times> pystr" where
  "digitpart [] = ([], [])"
| "digitpart (c # cs) =
     (case digit_value c of
        None \<Rightarrow> ([], c # cs)
      | Some d \<Rightarrow>
          (case cs of
             u # c2 # cs2 \<Rightarrow>
               if u = 95 \<and> digit_value c2 \<noteq> None
               then (case digitpart (c2 # cs2) of (ds, r) \<Rightarrow> (d # ds, r))
               else (case digitpart cs of (ds, r) \<Rightarrow> (d # ds, r))
           | _ \<Rightarrow> (case digitpart cs of (ds, r) \<Rightarrow> (d # ds, r))))"

definition dec_value :: "nat list \<Rightarrow> nat" where
  "dec_value ds = foldl (\<lambda>a d. 10 * a + d) 0 ds"

definition sign_of :: "pystr \<Rightarrow> bool \<times> pystr" where
  "sign_of s =
     (case s of
        [] \<Rightarrow> (False, [])
      | c # cs \<Rightarrow> if c = 45 then (True, cs) else if c = 43 then (False, cs) else (False, s))"

text \<open>
  \<open>int(s)\<close> for a string; \<open>None\<close> stands for the \<open>ValueError\<close>, which
  is also raised for a string of more than 4300 digits (the interpreter's default
  limit \<open>sys.int_info.default_max_str_digits\<close>; underscores and the sign are not
  counted).
\<close>

definition py_int_str :: "pystr \<Rightarrow> int option" where
  "py_int_str s =
     (case sign_of (num_strip s) of (neg, r) \<Rightarrow>
      case digitpart r of (ds, rest) \<Rightarrow>
        if ds \<noteq> [] \<and> rest = [] \<and> length ds \<le> 4300
        then Some (if neg then - int (dec_value ds) else int (dec_value ds))
        else None)"

text \<open>
  \<open>int(v)\<close>: an integer is returned as it is, a finite float is truncated towards
  zero; \<open>None\<close> stands for the \<open>TypeError\<close>, \<open>ValueError\<close> or
  \<open>OverflowError\<close> of the other cases.
\<close>

fun py_int :: "pyval \<Rightarrow> int option" where
  "py_int PNone = None"
| "py_int (PInt i) = Some i"
| "py_int (PFloat (Fin r)) = Some (if 0 \<le> r then \<lfloor>r\<rfloor> else \<lceil>r\<rceil>)"
| "py_int (PFloat f) = None"
| "py_int (PStr s) = py_int_str s"

text \<open>
  Rounding to binary64, to nearest with ties to even: 53 significant bits, smallest
  normal exponent -1022, overflow to infinity from \<open>2 ^ 1024\<close> on (after rounding).
  \<open>expo a\<close> is the exponent of a positive \<open>a\<close>, the integer \<open>e\<close> with
  \<open>2 ^ e \<le> a < 2 ^ (e + 1)\<close>.
\<close>

definition round_half_even :: "real \<Rightarrow> int" where
  "round_half_even x =
     (let f = \<lfloor>x\<rfloor>; d = x - real_of_int f
      in if d < 1 / 2 then f else if 1 / 2 < d then f + 1 else if even f then f else f + 1)"

definition pow2 :: "int \<Rightarrow> real" where
  "pow2 k = (if 0 \<le> k then 2 ^ nat k else 1 / 2 ^ nat (- k))"

fun bit_length :: "nat \<Rightarrow> nat" where
  "bit_length n = (if n = 0 then 0 else Suc (bit_length (n div 2)))"

declare bit_length.simps [simp del]

definition expo :: "real \<Rightarrow> int" where
  "expo a = (if 1 \<le> a then int (bit_length (nat \<lfloor>a\<rfloor>)) - 1
             else - int (bit_length (nat \<lceil>1 / a\<rceil> - 1)))"

definition b64 :: "real \<Rightarrow> pyfloat" where
  "b64 x =
     (let a = \<bar>x\<bar> in
      if a = 0 then Fin 0
      else if 2 ^ 1024 \<le> a then (if x < 0 then NegInf else PosInf)
      else
        let e = max (expo a) (- 1022);
            q = pow2 (e - 52);
            r = real_of_int (round_half_even (a / q)) * q
        in if 2 ^ 1024 \<le> r then (if x < 0 then NegInf else PosInf)
           else Fin (if x < 0 then - r else r))"

text \<open>
  \<open>float(s)\<close> for a string: an optional sign, then \<open>inf\<close>, \<open>infinity\<close> or
  \<open>nan\<close> in any ASCII letter case, or a decimal number with an optional exponent,
  whose exact value is rounded to binary64. \<open>None\<close> stands for the
  \<open>ValueError\<close>.
\<close>

definition ascii_lower :: "pystr \<Rightarrow> pystr" where
  "ascii_lower s = map (\<lambda>c. if 65 \<le> c \<and> c \<le> 90 then c + 32 else c) s"

definition scale10 :: "real \<Rightarrow> bool \<Rightarrow> nat \<Rightarrow> real" where
  "scale10 x neg e = (if neg then x / 10 ^ e else x * 10 ^ e)"

definition py_float_str :: "pystr \<Rightarrow> pyfloat option" where
  "py_float_str s =
     (case sign_of (num_strip s) of (neg, r) \<Rightarrow>
      if ascii_lower r = ustr ''inf'' \<or> ascii_lower r = ustr ''infinity''
      then Some (if neg then NegInf else PosInf)
      else if ascii_lower r = ustr ''nan'' then Some NaN
      else
        case digitpart r of (ip, r1) \<Rightarrow>
        case (case r1 of [] \<Rightarrow> ([], [])
              | c # r' \<Rightarrow> if c = 46 then digitpart r' else ([], r1)) of (fp, r2) \<Rightarrow>
        let mantissa = real (dec_value ip) + real (dec_value fp) / 10 ^ length fp;
            signed = (if neg then - mantissa else mantissa)
        in if ip = [] \<and> fp = [] then None
           else
             (case r2 of
                [] \<Rightarrow> Some (b64 signed)
              | c # r3 \<Rightarrow>
                  if c = 101 \<or> c = 69 then
                    (case sign_of r3 of (eneg, r4) \<Rightarrow>
                     case digitpart r4 of (ed, r5) \<Rightarrow>
                       if ed \<noteq> [] \<and> r5 = []
                       then Some (b64 (scale10 signed eneg (dec_value ed)))
                       else None)
                  else None))"

text \<open>
  Float arithmetic as the program uses it. Addition and multiplication round the
  exact result to binary64 and follow IEEE 754 on the non-finite values.
  \<open>float(q)\<close> for an integer rounds it to binary64 and raises \<open>OverflowError\<close>
  when the result is not finite; \<open>qty * unit_price\<close> with an integer \<open>qty\<close>
  converts \<open>qty\<close> in this way first. \<open>round(x, 2)\<close> rounds the exact value of the
  float half to even at two decimals and returns the nearest float; it returns a
  non-finite float as it is. The truth value of a float is used by \<open>x or 0.0\<close>.
\<close>

datatype py_error = OverflowError

fun fadd :: "pyfloat \<Rightarrow> pyfloat \<Rightarrow> pyfloat" where
  "fadd (Fin a) (Fin b) = b64 (a + b)"
| "fadd NaN y = NaN"
| "fadd x NaN = NaN"
| "fadd PosInf NegInf = NaN"
| "fadd NegInf PosInf = NaN"
| "fadd PosInf y = PosInf"
| "fadd NegInf y = NegInf"
| "fadd x PosInf = PosInf"
| "fadd x NegInf = NegInf"

fun fmul :: "pyfloat \<Rightarrow> pyfloat \<Rightarrow> pyfloat" where
  "fmul (Fin a) (Fin b) = b64 (a * b)"
| "fmul NaN y = NaN"
| "fmul x NaN = NaN"
| "fmul (Fin a) PosInf = (if a = 0 then NaN else if 0 < a then PosInf else NegInf)"
| "fmul (Fin a) NegInf = (if a = 0 then NaN else if 0 < a then NegInf else PosInf)"
| "fmul PosInf (Fin b) = (if b = 0 then NaN else if 0 < b then PosInf else NegInf)"
| "fmul NegInf (Fin b) = (if b = 0 then NaN else if 0 < b then NegInf else PosInf)"
| "fmul PosInf PosInf = PosInf"
| "fmul PosInf NegInf = NegInf"
| "fmul NegInf PosInf = NegInf"
| "fmul NegInf NegInf = PosInf"

definition int_to_float :: "int \<Rightarrow> py_error + pyfloat" where
  "int_to_float q =
     (case b64 (real_of_int q) of Fin r \<Rightarrow> Inr (Fin r) | _ \<Rightarrow> Inl OverflowError)"

definition imul :: "int \<Rightarrow> pyfloat \<Rightarrow> py_error + pyfloat" where
  "imul q f = (case int_to_float q of Inl e \<Rightarrow> Inl e | Inr fq \<Rightarrow> Inr (fmul fq f))"

definition truthy :: "pyfloat \<Rightarrow> bool" where
  "truthy f \<longleftrightarrow> f \<noteq> Fin 0"

fun py_round2 :: "pyfloat \<Rightarrow> pyfloat" where
  "py_round2 (Fin r) = b64 (real_of_int (round_half_even (r * 100)) / 100)"
| "py_round2 f = f"

text \<open>
  \<open>datetime.strptime\<close> for the directives \<open>%Y\<close>, \<open>%m\<close>, \<open>%d\<close> and literal
  characters. The library turns the format into a regular expression, with
  \<^verbatim>\<open>\d\d\d\d\<close> for \<open>%Y\<close>, \<^verbatim>\<open>1[0-2]|0[1-9]|[1-9]\<close> for \<open>%m\<close> and
  \<^verbatim>\<open>3[0-1]|[1-2]\d|0[1-9]|[1-9]| [1-9]\<close> for \<open>%d\<close>; \<open>alts\<close> lists the ways
  a directive can match at the start of the text (value read, rest of the text), in
  the order of the alternatives.
\<close>

datatype directive = DY | Dm | Dd | DLit nat

definition ascii_digit :: "nat \<Rightarrow> nat \<Rightarrow> nat \<Rightarrow> bool" where
  "ascii_digit lo hi c \<longleftrightarrow> 48 + lo \<le> c \<and> c \<le> 48 + hi"

fun alts :: "directive \<Rightarrow> pystr \<Rightarrow> (nat \<times> pystr) list" where
  "alts (DLit l) s = (case s of [] \<Rightarrow> [] | c # r \<Rightarrow> if c = l then [(0, r)] else [])"
| "alts DY s =
     (case s of
        a # b # c # d # r \<Rightarrow>
          (case (digit_value a, digit_value b, digit_value c, digit_value d) of
             (Some x, Some y, Some z, Some w) \<Rightarrow> [(1000 * x + 100 * y + 10 * z + w, r)]
           | _ \<Rightarrow> [])
      | _ \<Rightarrow> [])"
| "alts Dm s =
     (case s of
        a # b # r \<Rightarrow>
          (if a = 49 \<and> ascii_digit 0 2 b then [(10 + (b - 48), r)] else []) @
          (if a = 48 \<and> ascii_digit 1 9 b then [(b - 48, r)] else []) @
          (if ascii_digit 1 9 a then [(a - 48, b # r)] else [])
      | [a] \<Rightarrow> if ascii_digit 1 9 a then [(a - 48, [])] else []
      | [] \<Rightarrow> [])"
| "alts Dd s =
     (case s of
        a # b # r \<Rightarrow>
          (if a = 51 \<and> ascii_digit 0 1 b then [(30 + (b - 48), r)] else []) @
          (if ascii_digit 1 2 a \<and> digit_value b \<noteq> None
           then [(10 * (a - 48) + the (digit_value b), r)] else []) @
          (if a = 48 \<and> ascii_digit 1 9 b then [(b - 48, r)] else []) @
          (if ascii_digit 1 9 a then [(a - 48, b # r)] else []) @
          (if a = 32 \<and> ascii_digit 1 9 b then [(b - 48, r)] else [])
      | [a] \<Rightarrow> if ascii_digit 1 9 a then [(a - 48, [])] else []
      | [] \<Rightarrow> [])"

text \<open>The fields read so far: (year, month, day).\<close>

fun set_field :: "directive \<Rightarrow> nat \<Rightarrow> nat \<times> nat \<times> nat \<Rightarrow> nat \<times> nat \<times> nat" where
  "set_field DY v (y, m, d) = (v, m, d)"
| "set_field Dm v (y, m, d) = (y, v, d)"
| "set_field Dd v (y, m, d) = (y, m, v)"
| "set_field (DLit l) v (y, m, d) = (y, m, d)"

fun first_success :: "('a \<Rightarrow> 'b option) \<Rightarrow> 'a list \<Rightarrow> 'b option" where
  "first_success f [] = None"
| "first_success f (x # xs) = (case f x of Some y \<Rightarrow> Some y | None \<Rightarrow> first_success f xs)"

text \<open>
  The backtracking match of the format's regular expression against a prefix of the
  text: the fields and the unconverted rest of the first match.
\<close>

fun match_format ::
  "directive list \<Rightarrow> pystr \<Rightarrow> nat \<times> nat \<times> nat \<Rightarrow> ((nat \<times> nat \<times> nat) \<times> pystr) option" where
  "match_format [] s acc = Some (acc, s)"
| "match_format (d # ds) s acc =
     first_success (\<lambda>(v, r). match_format ds r (set_field d v acc)) (alts d s)"

definition is_leap :: "nat \<Rightarrow> bool" where
  "is_leap y \<longleftrightarrow> y mod 4 = 0 \<and> (y mod 100 \<noteq> 0 \<or> y mod 400 = 0)"

definition days_in_month :: "nat \<Rightarrow> nat \<Rightarrow> nat" where
  "days_in_month y m =
     (if m = 2 then (if is_leap y then 29 else 28)
      else if m = 4 \<or> m = 6 \<or> m = 9 \<or> m = 11 then 30 else 31)"

text \<open>The dates that \<open>datetime\<close> represents: the years 1 to 9999.\<close>

definition valid_date :: "nat \<Rightarrow> nat \<Rightarrow> nat \<Rightarrow> bool" where
  "valid_date y m d \<longleftrightarrow>
     1 \<le> y \<and> y \<le> 9999 \<and> 1 \<le> m \<and> m \<le> 12 \<and> 1 \<le> d \<and> d \<le> days_in_month y m"

text \<open>
  \<open>strptime\<close>: \<open>None\<close> stands for the \<open>ValueError\<close> raised when the text does
  not match, when unconverted text remains or when the date does not exist.
\<close>

definition strptime :: "pystr \<Rightarrow> directive list \<Rightarrow> (nat \<times> nat \<times> nat) option" where
  "strptime s fmt =
     (case match_format fmt s (1900, 1, 1) of
        None \<Rightarrow> None
      | Some ((y, m, d), rest) \<Rightarrow>
          if rest \<noteq> [] then None else if valid_date y m d then Some (y, m, d) else None)"

text \<open>
  \<open>strftime("%Y-%m-%d")\<close>. The directives are printed by the C library: \<open>%m\<close> and
  \<open>%d\<close> with two digits, \<open>%Y\<close> (on glibc) as the plain decimal number, without
  padding.
\<close>

definition pad2 :: "nat \<Rightarrow> pystr" where
  "pad2 n = (if n < 10 then 48 # str_of_nat n else str_of_nat n)"

definition strftime_Ymd :: "nat \<times> nat \<times> nat \<Rightarrow> pystr" where
  "strftime_Ymd dt = (case dt of (y, m, d) \<Rightarrow> str_of_nat y @ [45] @ pad2 m @ [45] @ pad2 d)"

section \<open>etl.py\<close>

definition strip :: "pystr option \<Rightarrow> pystr" where
  "strip s = py_strip (case s of None \<Rightarrow> [] | Some t \<Rightarrow> t)"

definition is_arabic_indic :: "nat \<Rightarrow> bool" where
  "is_arabic_indic c \<longleftrightarrow> 1632 \<le> c \<and> c \<le> 1641"

definition ar_digits_to_ascii :: "pystr \<Rightarrow> pystr" where
  "ar_digits_to_ascii s = map (\<lambda>c. if is_arabic_indic c then c - 1632 + 48 else c) s"

text \<open>\<open>s.replace(old, new)\<close> for a one-character \<open>old\<close>.\<close>

definition replace_char :: "nat \<Rightarrow> pystr \<Rightarrow> pystr \<Rightarrow> pystr" where
  "replace_char old new s = concat (map (\<lambda>c. if c = old then new else [c]) s)"

definition normalize_number_str :: "pystr \<Rightarrow> pystr \<Rightarrow> pystr" where
  "normalize_number_str num lang =
     (let s = strip (Some num) in
      if lang = ustr ''ar'' then
        (let s = ar_digits_to_ascii s;
             s = replace_char 1644 [] s;
             s = replace_char 1643 [46] s;
             s = replace_char 44 [] s
         in s)
      else if lang = ustr ''de'' then
        (let s = replace_char 46 [] s;
             s = replace_char 44 [46] s
         in s)
      else replace_char 44 [] s)"

text \<open>
  \<open>_to_float\<close>: \<open>float(v)\<close> for a number is outside the \<open>try\<close>, so its
  \<open>OverflowError\<close> leaves the function; the \<open>ValueError\<close> of \<open>float(s)\<close> is
  caught and yields \<open>None\<close>.
\<close>

fun to_float :: "pyval \<Rightarrow> pystr \<Rightarrow> py_error + pyfloat option" where
  "to_float PNone lang = Inr None"
| "to_float (PInt i) lang =
     (case int_to_float i of Inl e \<Rightarrow> Inl e | Inr f \<Rightarrow> Inr (Some f))"
| "to_float (PFloat f) lang = Inr (Some f)"
| "to_float (PStr v) lang = Inr (py_float_str (normalize_number_str v lang))"

definition fmt_iso :: "directive list" where "fmt_iso = [DY, DLit 45, Dm, DLit 45, Dd]"
definition fmt_mdY_slash :: "directive list" where "fmt_mdY_slash = [Dm, DLit 47, Dd, DLit 47, DY]"
definition fmt_mdY_dash :: "directive list" where "fmt_mdY_dash = [Dm, DLit 45, Dd, DLit 45, DY]"
definition fmt_dmY_slash :: "directive list" where "fmt_dmY_slash = [Dd, DLit 47, Dm, DLit 47, DY]"
definition fmt_dmY_dash :: "directive list" where "fmt_dmY_dash = [Dd, DLit 45, Dm, DLit 45, DY]"
definition fmt_dmY_dot :: "directive list" where "fmt_dmY_dot = [Dd, DLit 46, Dm, DLit 46, DY]"

text \<open>\<open>patterns.get(lang, patterns["en"])\<close>.\<close>

definition patterns :: "pystr \<Rightarrow> directive list list" where
  "patterns lang =
     (if lang = ustr ''de'' then [fmt_dmY_dot, fmt_dmY_slash, fmt_dmY_dash, fmt_iso]
      else if lang = ustr ''ar'' then [fmt_dmY_slash, fmt_iso, fmt_dmY_dash]
      else [fmt_iso, fmt_mdY_slash, fmt_mdY_dash, fmt_dmY_slash, fmt_dmY_dash])"

definition fallbacks :: "directive list list" where
  "fallbacks = [fmt_iso, fmt_dmY_slash, fmt_mdY_slash, fmt_dmY_dash, fmt_mdY_dash, fmt_dmY_dot]"

text \<open>Each \<open>for fmt in ...: try: return ... except ValueError: pass\<close> loop.\<close>

fun try_formats :: "directive list list \<Rightarrow> pystr \<Rightarrow> pystr option" where
  "try_formats [] raw = None"
| "try_formats (fmt # fmts) raw =
     (case strptime raw fmt of
        Some dt \<Rightarrow> Some (strftime_Ymd dt)
      | None \<Rightarrow> try_formats fmts raw)"

definition parse_date_localized :: "pystr \<Rightarrow> pystr \<Rightarrow> pystr option" where
  "parse_date_localized date_str lang =
     (let raw = strip (Some date_str) in
      if raw = [] then None
      else
        let raw = (if list_ex is_arabic_indic raw then ar_digits_to_ascii raw else raw);
            raw = replace_char 1644 [] (replace_char 1643 [46] raw)
        in case try_formats (patterns lang) raw of
             Some out \<Rightarrow> Some out
           | None \<Rightarrow> try_formats fallbacks raw)"

text \<open>
  The raw submission (schema.py: \<open>InvoiceInput\<close>, \<open>InvoiceItem\<close>) as the dictionary
  that \<open>normalize\<close> reads with \<open>.get\<close>: \<open>None\<close> is a missing key or \<open>None\<close>
  for the text fields; for quantity and unit price the outer \<open>None\<close> is a missing
  key, which \<open>.get\<close> replaces by the default 1 or 0.0.
\<close>

record raw_item =
  item_description :: "pystr option"
  item_quantity :: "pyval option"
  item_unit_price :: "pyval option"
  item_category :: "pystr option"

record payload =
  raw_vendor_name :: "pystr option"
  raw_invoice_number :: "pystr option"
  raw_date :: "pystr option"
  raw_tax_id :: "pystr option"
  raw_currency :: "pystr option"
  raw_items :: "raw_item list option"
  raw_language :: "pystr option"
  raw_text :: "pystr option"

text \<open>
  The body of the loop over the raw items, up to \<open>items.append\<close>: the dictionary
  appended to \<open>items\<close>, or the \<open>OverflowError\<close> that leaves \<open>_to_float\<close>.
\<close>

definition normalize_item :: "pystr \<Rightarrow> raw_item \<Rightarrow> py_error + item" where
  "normalize_item lang it =
     (let desc = strip (item_description it);
          qty = (case item_quantity it of None \<Rightarrow> PInt 1 | Some v \<Rightarrow> v);
          qty = (case qty of
                   PStr q \<Rightarrow> if lang = ustr ''ar'' then PStr (ar_digits_to_ascii q) else qty
                 | _ \<Rightarrow> qty);
          qty = (case py_int qty of Some i \<Rightarrow> i | None \<Rightarrow> 1)
      in case to_float (case item_unit_price it of None \<Rightarrow> PFloat (Fin 0) | Some v \<Rightarrow> v) lang of
           Inl e \<Rightarrow> Inl e
         | Inr price \<Rightarrow>
             let price = (case price of None \<Rightarrow> Fin 0 | Some f \<Rightarrow> if truthy f then f else Fin 0)
             in Inr \<lparr> description = desc, quantity = qty, unit_price = price,
                      category = strip (item_category it) \<rparr>)"

text \<open>
  The loop \<open>for it in raw_items\<close>, threading the two mutated locals \<open>items\<close> and
  \<open>total_amount\<close>; an exception raised in the body (in \<open>_to_float\<close> or in
  \<open>qty * unit_price\<close>) ends the loop and the function.
\<close>

fun normalize_loop ::
  "pystr \<Rightarrow> raw_item list \<Rightarrow> item list \<times> pyfloat \<Rightarrow> py_error + item list \<times> pyfloat" where
  "normalize_loop lang [] (items', total') = Inr (items', total')"
| "normalize_loop lang (it # rest) (items', total') =
     (case normalize_item lang it of
        Inl e \<Rightarrow> Inl e
      | Inr new \<Rightarrow>
          (case imul (quantity new) (unit_price new) of
             Inl e \<Rightarrow> Inl e
           | Inr line \<Rightarrow> normalize_loop lang rest (items' @ [new], fadd total' line)))"

text \<open>\<open>" ".join(parts)\<close>.\<close>

fun join_space :: "pystr list \<Rightarrow> pystr" where
  "join_space [] = []"
| "join_space [p] = p"
| "join_space (p # ps) = p @ [32] @ join_space ps"

text \<open>
  \<open>normalize\<close>: the canonical invoice, or the exception that leaves the function.
\<close>

definition normalize :: "unicode \<Rightarrow> payload \<Rightarrow> pystr \<Rightarrow> py_error + canonical" where
  "normalize U pl lang =
     (let vendor = strip (raw_vendor_name pl);
          number = strip (raw_invoice_number pl);
          date_iso = parse_date_localized (strip (raw_date pl)) lang;
          tax = strip (raw_tax_id pl);
          cur = py_upper U (strip (case raw_currency pl of
                                     None \<Rightarrow> Some (ustr ''EUR'')
                                   | Some c \<Rightarrow> if c = [] then Some (ustr ''EUR'') else Some c));
          raws = (case raw_items pl of None \<Rightarrow> [] | Some xs \<Rightarrow> xs)
      in case normalize_loop lang raws ([], Fin 0) of
           Inl e \<Rightarrow> Inl e
         | Inr (items', total') \<Rightarrow>
             let count = int (length items');
                 full_text_parts =
                   [vendor, number, tax, cur] @
                   map description (filter (\<lambda>it. description it \<noteq> []) items') @
                   [strip (raw_text pl)];
                 full_text_parts =
                   (if lang = ustr ''ar'' then map ar_digits_to_ascii full_text_parts
                    else full_text_parts)
             in Inr \<lparr> vendor_name = vendor, invoice_number = number, date = date_iso,
                      tax_id = tax, items = items', currency = cur,
                      total_amount = (if count \<noteq> 0 then Some (py_round2 total') else None),
                      line_count = count,
                      full_text = join_space (filter (\<lambda>p. p \<noteq> []) full_text_parts) \<rparr>)"

section \<open>explain.py\<close>

text \<open>
  One \<open>{"token": ..., "weight": ...}\<close> entry, and the dictionary returned (its key
  \<open>"method"\<close> is the field \<open>method_tag\<close>, its \<open>details["top_tokens"]\<close> the field
  \<open>top_tokens\<close>).
\<close>

record top_token =
  token :: pystr
  weight :: real

record explanation =
  method_tag :: pystr
  top_tokens :: "top_token list"

text \<open>
  \<open>max(...)\<close> of a non-empty sequence (the call is guarded by \<open>if top\<close>; on an
  empty sequence Python raises, which the model does not reach).
\<close>

definition py_max :: "real list \<Rightarrow> real" where
  "py_max xs = (case xs of [] \<Rightarrow> 0 | x # ys \<Rightarrow> fold max ys x)"

text \<open>
  \<open>_top_token_contributions\<close>. The vectorizer and the classifier are artifacts
  loaded from disk: \<open>model\<close> is \<open>None\<close> when they cannot be loaded, and otherwise
  the function that yields, for a text, the list \<open>contribs\<close> of (token, coefficient
  times tf-idf value) pairs in the order of the document's non-zero features. The
  sort is Python's stable sort with \<open>key=abs(weight), reverse=True\<close>.
\<close>

definition top_token_contributions ::
  "(pystr \<Rightarrow> (pystr \<times> real) list) option \<Rightarrow> pystr \<Rightarrow> nat \<Rightarrow> top_token list" where
  "top_token_contributions model text top_k =
     (case model of
        None \<Rightarrow> []
      | Some contributions \<Rightarrow>
          let contribs = contributions text;
              contribs = sort_key (\<lambda>t. - \<bar>snd t\<bar>) contribs;
              top = take top_k contribs;
              top = (if top \<noteq> [] then
                       (let m = py_max (map (\<lambda>t. \<bar>snd t\<bar>) top);
                            max_abs = (if m = 0 then 1.0 else m)
                        in map (\<lambda>(tok, w). (tok, w / max_abs)) top)
                     else top)
          in map (\<lambda>(tok, w). \<lparr> token = tok, weight = w \<rparr>) top)"

text \<open>\<open>text.split()\<close>: the maximal runs of non-whitespace characters.\<close>

fun split_acc :: "pystr \<Rightarrow> pystr \<Rightarrow> pystr list" where
  "split_acc w [] = (if w = [] then [] else [w])"
| "split_acc w (c # cs) =
     (if is_space c then (if w = [] then split_acc [] cs else w # split_acc [] cs)
      else split_acc (w @ [c]) cs)"

definition py_split :: "pystr \<Rightarrow> pystr list" where
  "py_split s = split_acc [] s"

text \<open>
  \<open>Counter(tokens)\<close>: a dictionary in insertion order, from a token to its count;
  \<open>most_common(n)\<close> lists the \<open>n\<close> entries with the highest counts, entries with
  equal counts in the order first encountered.
\<close>

fun bump :: "'a \<Rightarrow> ('a \<times> nat) list \<Rightarrow> ('a \<times> nat) list" where
  "bump k [] = [(k, 1)]"
| "bump k ((k', n) # m) = (if k = k' then (k', n + 1) # m else (k', n) # bump k m)"

definition counter :: "'a list \<Rightarrow> ('a \<times> nat) list" where
  "counter xs = foldl (\<lambda>m k. bump k m) [] xs"

definition most_common :: "nat \<Rightarrow> ('a \<times> nat) list \<Rightarrow> ('a \<times> nat) list" where
  "most_common n m = take n (sort_key (\<lambda>e. - int (snd e)) m)"

definition explain_for_payload ::
  "unicode \<Rightarrow> (pystr \<Rightarrow> (pystr \<times> real) list) option \<Rightarrow> canonical \<Rightarrow> explanation" where
  "explain_for_payload U model nrm =
     (let text = py_lower U (full_text nrm);
          top = top_token_contributions model text 5
      in if top \<noteq> [] then
           \<lparr> method_tag = ustr ''linear_contribution'', top_tokens = top \<rparr>
         else
           (let tokens = filter (\<lambda>t. length t > 2) (py_split text);
                common = most_common 3 (counter tokens)
            in \<lparr> method_tag = ustr ''feature_importances'',
                 top_tokens = map (\<lambda>(t, i). \<lparr> token = t, weight = real i / 10.0 \<rparr>) common \<rparr>))"

text \<open>The tokens counted on the fallback path of \<open>explain_for_payload\<close>.\<close>

definition fallback_tokens :: "unicode \<Rightarrow> canonical \<Rightarrow> pystr list" where
  "fallback_tokens U nrm = filter (\<lambda>t. length t > 2) (py_split (py_lower U (full_text nrm)))"

section \<open>Notions used in the statements, and sample inputs\<close>

text \<open>The count that a \<open>Counter\<close> holds for a key (0 for a key it does not hold).\<close>

definition cnt :: "('a \<times> nat) list \<Rightarrow> 'a \<Rightarrow> nat" where
  "cnt m t = (case map_of m t of None \<Rightarrow> 0 | Some n \<Rightarrow> n)"

text \<open>
  Notions used to state the properties of \<open>normalize\<close>: the raw items list
  (\<open>payload.get("items") or []\<close>), the result of reading a raw quantity with
  \<open>int()\<close> and a raw unit price with \<open>_to_float\<close> (after the defaults of \<open>.get\<close>
  and, for a quantity string under \<open>ar\<close>, the digit conversion), the line total
  \<open>qty * unit_price\<close> of a canonical item, the sum accumulated from \<open>0.0\<close>,
  \<open>x >= 0\<close> on floats, and the raw items on which the loop body raises no
  exception.
\<close>

definition line_total :: "item \<Rightarrow> pyfloat" where
  "line_total it = fmul (b64 (real_of_int (quantity it))) (unit_price it)"

definition sum_of_lines :: "item list \<Rightarrow> pyfloat" where
  "sum_of_lines its = foldl fadd (Fin 0) (map line_total its)"

definition raw_items_of :: "payload \<Rightarrow> raw_item list" where
  "raw_items_of pl = (case raw_items pl of None \<Rightarrow> [] | Some xs \<Rightarrow> xs)"

definition read_quantity :: "pystr \<Rightarrow> raw_item \<Rightarrow> int option" where
  "read_quantity lang it =
     (case item_quantity it of
        None \<Rightarrow> Some 1
      | Some (PStr q) \<Rightarrow> py_int_str (if lang = ustr ''ar'' then ar_digits_to_ascii q else q)
      | Some v \<Rightarrow> py_int v)"

definition read_unit_price :: "pystr \<Rightarrow> raw_item \<Rightarrow> py_error + pyfloat option" where
  "read_unit_price lang it =
     (case item_unit_price it of None \<Rightarrow> Inr (Some (Fin 0)) | Some v \<Rightarrow> to_float v lang)"

fun fge0 :: "pyfloat \<Rightarrow> bool" where
  "fge0 (Fin r) = (0 \<le> r)"
| "fge0 PosInf = True"
| "fge0 NegInf = False"
| "fge0 NaN = False"

definition fits :: "pystr \<Rightarrow> raw_item \<Rightarrow> bool" where
  "fits lang it =
     (case normalize_item lang it of
        Inl e \<Rightarrow> False
      | Inr new \<Rightarrow> (case int_to_float (quantity new) of Inl e \<Rightarrow> False | Inr f \<Rightarrow> True))"

text \<open>
  The normalisation of an Arabic number string, character by character, in the words
  of the specification: Arabic-Indic digits become ASCII digits, the Arabic thousands
  separator and the comma are removed, the Arabic decimal separator becomes a dot.
\<close>

definition ar_number_chars :: "pystr \<Rightarrow> pystr" where
  "ar_number_chars s =
     concat (map (\<lambda>c. if is_arabic_indic c then [c - 1632 + 48]
                       else if c = 1644 \<or> c = 44 then []
                       else if c = 1643 then [46] else [c]) s)"

definition keyboard_item :: raw_item where
  "keyboard_item = \<lparr> item_description = Some (ustr ''Keyboard''), item_quantity = Some (PInt 3),
     item_unit_price = Some (PFloat (Fin 35)), item_category = None \<rparr>"

definition refund_item :: raw_item where
  "refund_item = \<lparr> item_description = Some (ustr ''Refund''), item_quantity = Some (PStr (ustr ''-5'')),
     item_unit_price = Some (PStr (ustr ''-3.5'')), item_category = None \<rparr>"

definition eighth_item :: raw_item where
  "eighth_item = \<lparr> item_description = Some (ustr ''Cable''), item_quantity = Some (PInt 1),
     item_unit_price = Some (PStr (ustr ''0,125'')), item_category = None \<rparr>"

definition pen_item :: raw_item where
  "pen_item = \<lparr> item_description = Some (ustr ''Pen''), item_quantity = Some (PInt 1),
     item_unit_price = Some (PStr (ustr ''2.675'')), item_category = None \<rparr>"

text \<open>A line item whose quantity is the string of 1 followed by 309 zeros.\<close>

definition huge_item :: raw_item where
  "huge_item = \<lparr> item_description = Some (ustr ''Bolt''),
     item_quantity = Some (PStr (49 # replicate 309 48)),
     item_unit_price = Some (PFloat (Fin 1)), item_category = None \<rparr>"

definition malformed_item :: raw_item where
  "malformed_item = \<lparr> item_description = None, item_quantity = Some (PStr (ustr ''abc'')),
     item_unit_price = Some (PStr (ustr ''n/a'')), item_category = None \<rparr>"

definition acme_payload :: "raw_item list \<Rightarrow> payload" where
  "acme_payload its = \<lparr> raw_vendor_name = Some (ustr ''Acme''), raw_invoice_number = Some (ustr ''A-1''),
     raw_date = Some (ustr ''10.07.2025''), raw_tax_id = Some (ustr ''DE123''),
     raw_currency = Some (ustr ''EUR''), raw_items = Some its, raw_language = None,
     raw_text = None \<rparr>"

text \<open>
  The ISO 8601 text \<open>YYYY-MM-DD\<close> of the calendar date (y, m, d): four digits, a
  hyphen, two digits, a hyphen, two digits. Every valid ISO date string of this form
  is \<open>iso_text y m d\<close> for a year up to 9999, a month from 1 to 12 and a day that
  the month has.
\<close>

definition digits2 :: "nat \<Rightarrow> pystr" where
  "digits2 n = [48 + n div 10 mod 10, 48 + n mod 10]"

definition digits4 :: "nat \<Rightarrow> pystr" where
  "digits4 n = [48 + n div 1000 mod 10, 48 + n div 100 mod 10, 48 + n div 10 mod 10, 48 + n mod 10]"

definition iso_text :: "nat \<Rightarrow> nat \<Rightarrow> nat \<Rightarrow> pystr" where
  "iso_text y m d = digits4 y @ [45] @ digits2 m @ [45] @ digits2 d"

text \<open>
  The resolution order of C4, in the words of the specification: the tax-identifier
  prefix against the EU table, else against the GCC table, else the currency against
  the currency hint table with the hinted country's GCC rate, else GCC at 15% for
  language \<open>ar\<close>, else \<open>Unknown\<close> at 15%.
\<close>

definition resolution_order :: "pystr \<Rightarrow> pystr \<Rightarrow> pystr \<Rightarrow> pystr \<times> real" where
  "resolution_order prefix cur language =
     (case map_of EU_STANDARD prefix of
        Some r \<Rightarrow> (ustr ''EU'', r)
      | None \<Rightarrow>
     (case map_of GCC_STANDARD prefix of
        Some r \<Rightarrow> (ustr ''GCC'', r)
      | None \<Rightarrow>
     (case map_of CURRENCY_TO_GCC cur of
        Some country \<Rightarrow> (ustr ''GCC'', the (map_of GCC_STANDARD country))
      | None \<Rightarrow>
     (if language = ustr ''ar'' then (ustr ''GCC'', 0.15) else (ustr ''Unknown'', 0.15)))))"

text \<open>
  The cue of C3, in the words of the specification, made precise as the code needs it:
  the text contains \<open>reverse\<close>, any run of whitespace (possibly none) and
  \<open>charge\<close>, in any letter case, and the phrase is not directly preceded or followed
  by a word character.
\<close>

definition same_ignoring_case :: "string \<Rightarrow> pystr \<Rightarrow> bool" where
  "same_ignoring_case w t = list_all2 lit_ok (ustr w) t"

definition has_reverse_charge_phrase :: "unicode \<Rightarrow> pystr \<Rightarrow> bool" where
  "has_reverse_charge_phrase U text \<longleftrightarrow>
     (\<exists>pre w1 ws w2 post.
        text = pre @ w1 @ ws @ w2 @ post \<and>
        same_ignoring_case ''reverse'' w1 \<and> list_all is_space ws \<and>
        same_ignoring_case ''charge'' w2 \<and>
        (pre = [] \<or> \<not> is_word U (last pre)) \<and> (post = [] \<or> \<not> is_word U (hd post)))"

text \<open>The character before the position reached after reading \<open>t\<close>.\<close>

definition last_before :: "nat option \<Rightarrow> pystr \<Rightarrow> nat option" where
  "last_before p t = (if t = [] then p else Some (last t))"

section \<open>Properties of anomaly.py\<close>

lemma clip_bounds: "lo \<le> hi \<Longrightarrow> lo \<le> clip x lo hi \<and> clip x lo hi \<le> hi"
  by (simp add: clip_def)

lemma score_anomaly_risk:
  "fst (score_anomaly df nrm dup mc) =
     clip (clip (0.5 - df (safe_float (total_amount nrm)) (line_count nrm)) 0 1
           + (if dup then 0.25 else 0)
           + (if mc > 0 then 0.10 * real_of_int (min mc 5) else 0)) 0 0.99"
  by (simp add: score_anomaly_def Let_def safe_int_def)

lemma score_anomaly_reasons:
  "snd (score_anomaly df nrm dup mc) =
     (if dup then [reason_duplicate] else []) @
     (if mc > 0 then [reason_missing mc] else []) @
     (if fst (score_anomaly df nrm dup mc) < 0.15 \<and> \<not> dup \<and> \<not> mc > 0
      then [reason_consistent] else [])"
  by (simp add: score_anomaly_def Let_def safe_int_def)

text \<open>
  C1. For every canonical invoice, every duplicate flag and every missing-field count
  (in particular every count from 0 to 10), and whatever the outlier model returns, the
  risk score returned by \<open>score_anomaly\<close> lies within [0, 0.99].
\<close>

theorem C1_score_within_bounds:
  "0 \<le> fst (score_anomaly decision_function nrm is_duplicate missing_count) \<and>
   fst (score_anomaly decision_function nrm is_duplicate missing_count) \<le> 0.99"
proof -
  have "(0::real) \<le> 0.99" by simp
  from clip_bounds [OF this] show ?thesis
    unfolding score_anomaly_risk by blast
qed

theorem C1_score_within_bounds_witness:
  "0 \<le> fst (score_anomaly (\<lambda>amt lc. 0.1) empty_invoice True 10) \<and>
   fst (score_anomaly (\<lambda>amt lc. 0.1) empty_invoice True 10) \<le> 0.99"
  using C1_score_within_bounds [of "\<lambda>amt lc. 0.1" empty_invoice True 10] by simp

text \<open>
  C5 as stated: the reasons list returned by \<open>score_anomaly\<close> is never empty.
  This fails: the default reason is guarded by \<open>risk < 0.15\<close>, so an invoice that
  is no duplicate, misses no field and gets the decision score 0 (base risk 0.5) has
  the score 0.5 and an empty reasons list.
\<close>

theorem C5_reasons_empty_counterexample:
  "score_anomaly (\<lambda>amt lc. 0) empty_invoice False 0 = (0.5, [])"
  by (simp add: score_anomaly_def Let_def clip_def)

text \<open>
  C5 as amended: the reasons list is, in this order, the duplicate warning when the
  invoice is a duplicate, the count reason when the missing-field count is positive,
  and the default "looks consistent" reason when neither was appended and the final
  score is below 0.15. It is empty exactly when the invoice is no duplicate, the
  missing-field count is not positive and the final score is at least 0.15.
\<close>

theorem C5_reasons_amended:
  "snd (score_anomaly decision_function nrm is_duplicate missing_count) =
     (if is_duplicate then [reason_duplicate] else []) @
     (if missing_count > 0 then [reason_missing missing_count] else []) @
     (if fst (score_anomaly decision_function nrm is_duplicate missing_count) < 0.15
         \<and> \<not> is_duplicate \<and> \<not> missing_count > 0
      then [reason_consistent] else []) \<and>
   (snd (score_anomaly decision_function nrm is_duplicate missing_count) = [] \<longleftrightarrow>
     (\<not> is_duplicate \<and> missing_count \<le> 0 \<and>
      0.15 \<le> fst (score_anomaly decision_function nrm is_duplicate missing_count)))"
proof -
  let ?r = "score_anomaly decision_function nrm is_duplicate missing_count"
  have shape: "snd ?r =
     (if is_duplicate then [reason_duplicate] else []) @
     (if missing_count > 0 then [reason_missing missing_count] else []) @
     (if fst ?r < 0.15 \<and> \<not> is_duplicate \<and> \<not> missing_count > 0
      then [reason_consistent] else [])"
    by (rule score_anomaly_reasons)
  have "snd ?r = [] \<longleftrightarrow> (\<not> is_duplicate \<and> missing_count \<le> 0 \<and> 0.15 \<le> fst ?r)"
    by (subst shape) auto
  with shape show ?thesis by blast
qed

theorem C5_reasons_amended_witness:
  "snd (score_anomaly (\<lambda>amt lc. 0.4) empty_invoice False 0) = [reason_consistent] \<and>
   snd (score_anomaly (\<lambda>amt lc. 0.1) empty_invoice True 2) =
     [reason_duplicate, reason_missing 2]"
  using C5_reasons_amended [of "\<lambda>amt lc. 0.4" empty_invoice False 0]
    C5_reasons_amended [of "\<lambda>amt lc. 0.1" empty_invoice True 2]
  by (simp add: score_anomaly_risk clip_def)

section \<open>Properties of tax.py\<close>

lemmas tax_eval =
  classify_vat_def decide_region_and_rate_def vat_text_def get_str_def Let_def
  EXEMPT_PATTERNS_def ZERO_RATED_PATTERNS_def seqs_def lits_def re_search_def ustr_def
  lit_ok_def word_boundary_def is_word_def is_space_def py_upper_def py_lower_def
  sample_db_def EU_STANDARD_def GCC_STANDARD_def CURRENCY_TO_GCC_def

lemma lits_Nil: "lits [] = Eps"
  by (simp add: lits_def seqs_def)

lemma lits_Cons: "lits (c # w) = Seq (Chr (of_char c)) (lits w)"
  by (simp add: lits_def seqs_def)

lemma seqs_Cons: "seqs (r # rs) = Seq r (seqs rs)"
  by (simp add: seqs_def)

lemma seqs_Nil: "seqs [] = Eps"
  by (simp add: seqs_def)

lemma run_Seq_mem:
  "c1 \<in> set (run U a c0) \<Longrightarrow> c2 \<in> set (run U b c1) \<Longrightarrow> c2 \<in> set (run U (Seq a b) c0)"
  by auto

lemma run_lits_mem:
  "list_all2 lit_ok (ustr w) t \<Longrightarrow> (last_before p t, rest) \<in> set (run U (lits w) (p, t @ rest))"
proof (induction w arbitrary: t p)
  case Nil
  then show ?case by (simp add: ustr_def lits_Nil last_before_def)
next
  case (Cons c w)
  from Cons.prems obtain d t' where t: "t = d # t'" and d: "lit_ok (of_char c) d"
    and t': "list_all2 lit_ok (ustr w) t'"
    by (auto simp: ustr_def list_all2_Cons1)
  have "(Some d, t' @ rest) \<in> set (run U (Chr (of_char c)) (p, t @ rest))"
    using t d by simp
  moreover have "(last_before (Some d) t', rest) \<in> set (run U (lits w) (Some d, t' @ rest))"
    by (rule Cons.IH [OF t'])
  moreover have "last_before (Some d) t' = last_before p t"
    using t by (simp add: last_before_def)
  ultimately show ?case
    unfolding lits_Cons by (metis run_Seq_mem)
qed

lemma star_self: "(p, s) \<in> set (star k p s)"
  by (cases s) auto

lemma star_mem:
  "list_all (cls_ok k) ws \<Longrightarrow> (last_before p ws, rest) \<in> set (star k p (ws @ rest))"
proof (induction ws arbitrary: p)
  case Nil
  then show ?case by (simp add: last_before_def star_self)
next
  case (Cons c ws)
  then have "(last_before (Some c) ws, rest) \<in> set (star k (Some c) (ws @ rest))" by simp
  moreover have "last_before (Some c) ws = last_before p (c # ws)"
    by (simp add: last_before_def)
  ultimately show ?case using Cons.prems by simp
qed

lemma search_from_found:
  "run U r (last_before p pre, rest) \<noteq> [] \<Longrightarrow> search_from U r p (pre @ rest) \<noteq> None"
proof (induction pre arbitrary: p)
  case Nil
  then show ?case
    by (cases rest) (auto simp: last_before_def split: list.splits)
next
  case (Cons a pre)
  have "last_before (Some a) pre = last_before p (a # pre)"
    by (simp add: last_before_def)
  with Cons have "search_from U r (Some a) (pre @ rest) \<noteq> None" by simp
  then show ?case by (simp split: list.splits)
qed

lemma first_match_hd:
  "pats \<noteq> [] \<Longrightarrow> re_search U (hd pats) text \<noteq> None \<Longrightarrow> first_match U pats text \<noteq> None"
  by (cases pats) (auto split: option.splits)

lemma exempt_if_cue:
  "first_match U EXEMPT_PATTERNS (vat_text nrm) \<noteq> None \<Longrightarrow>
   vat (classify_vat U nrm) = ustr ''exempt'' \<and> rate (classify_vat U nrm) = 0"
  by (auto simp: classify_vat_def Let_def split: prod.splits option.splits)

lemma first_is_word: "lit_ok 114 c \<Longrightarrow> is_word U c"
  by (auto simp: lit_ok_def is_word_def)

lemma last_is_word: "lit_ok 101 c \<Longrightarrow> is_word U c"
  by (auto simp: lit_ok_def is_word_def)

lemma reverse_charge_found:
  assumes "has_reverse_charge_phrase U text"
  shows "re_search U (hd EXEMPT_PATTERNS) text \<noteq> None"
proof -
  from assms obtain pre w1 ws w2 post where
    decomp: "text = pre @ w1 @ ws @ w2 @ post"
    and w1: "list_all2 lit_ok (ustr ''reverse'') w1"
    and ws: "list_all is_space ws"
    and w2: "list_all2 lit_ok (ustr ''charge'') w2"
    and before: "pre = [] \<or> \<not> is_word U (last pre)"
    and after: "post = [] \<or> \<not> is_word U (hd post)"
    unfolding has_reverse_charge_phrase_def same_ignoring_case_def by blast
  let ?p = "last_before None pre"
  let ?c0 = "(?p, w1 @ ws @ w2 @ post)"
  let ?c1 = "(last_before ?p w1, ws @ w2 @ post)"
  let ?c2 = "(last_before (last_before ?p w1) ws, w2 @ post)"
  let ?c3 = "(last_before (last_before (last_before ?p w1) ws) w2, post)"
  from w1 obtain a w1' where w1_eq: "w1 = a # w1'" and a: "lit_ok 114 a"
    by (auto simp: ustr_def list_all2_Cons1)
  from w2 have "w2 \<noteq> []" and "lit_ok 101 (last w2)"
    by (auto simp: ustr_def list_all2_Cons1)
  then have end_word: "last_before q w2 = Some (last w2)" "is_word U (last w2)" for q
    by (simp_all add: last_before_def last_is_word)
  have b0: "word_boundary U ?c0"
    using before a w1_eq by (auto simp: word_boundary_def last_before_def first_is_word)
  have b3: "word_boundary U ?c3"
    using after end_word by (auto simp: word_boundary_def split: list.splits)
  have s0: "?c0 \<in> set (run U WordB ?c0)" using b0 by simp
  have s1: "?c1 \<in> set (run U (lits ''reverse'') ?c0)" by (rule run_lits_mem [OF w1])
  have "list_all (cls_ok Space) ws"
    using ws by (simp add: list_all_iff)
  then have s2: "?c2 \<in> set (run U (Star Space) ?c1)"
    by (simp add: star_mem)
  have s3: "?c3 \<in> set (run U (lits ''charge'') ?c2)" by (rule run_lits_mem [OF w2])
  have s4: "?c3 \<in> set (run U (Seq WordB Eps) ?c3)" using b3 by simp
  have "?c3 \<in> set (run U (hd EXEMPT_PATTERNS) ?c0)"
    unfolding EXEMPT_PATTERNS_def list.sel seqs_Cons seqs_Nil
    by (intro run_Seq_mem [OF s0] run_Seq_mem [OF s1] run_Seq_mem [OF s2] run_Seq_mem [OF s3] s4)
  then have "run U (hd EXEMPT_PATTERNS) ?c0 \<noteq> []" by auto
  then show ?thesis
    unfolding re_search_def decomp by (rule search_from_found)
qed

text \<open>
  C3 as stated: a text that contains "reverse charge" forces \<open>exempt\<close> at rate 0.
  This fails where the phrase is part of a longer word: the pattern ends with
  \<^verbatim>\<open>\b\<close>, so "Reverse charges apply" is no cue, and a German tax id gets the
  standard rate.
\<close>

theorem C3_reverse_charges_counterexample:
  "vat (classify_vat sample_db [''tax_id'' \<mapsto> ustr ''DE123'', ''currency'' \<mapsto> ustr ''EUR'',
          ''full_text'' \<mapsto> ustr ''Reverse charges apply'']) = ustr ''standard'' \<and>
   rate (classify_vat sample_db [''tax_id'' \<mapsto> ustr ''DE123'', ''currency'' \<mapsto> ustr ''EUR'',
          ''full_text'' \<mapsto> ustr ''Reverse charges apply'']) = 0.19"
  by (simp add: tax_eval)

text \<open>
  C3 as amended: if the concatenation of raw free text and canonical full text
  contains "reverse charge" as a phrase of its own (any letter case, any run of
  whitespace between the two words, no word character directly before or after it),
  then \<open>classify_vat\<close> returns \<open>exempt\<close> at rate 0, whatever the tax identifier,
  the currency, the language and the rest of the text (a zero-rating cue included).
\<close>

theorem C3_reverse_charge_exempt:
  "has_reverse_charge_phrase U (vat_text nrm) \<Longrightarrow>
   vat (classify_vat U nrm) = ustr ''exempt'' \<and> rate (classify_vat U nrm) = 0"
proof -
  assume "has_reverse_charge_phrase U (vat_text nrm)"
  then have "re_search U (hd EXEMPT_PATTERNS) (vat_text nrm) \<noteq> None"
    by (rule reverse_charge_found)
  moreover have "EXEMPT_PATTERNS \<noteq> []" by (simp add: EXEMPT_PATTERNS_def)
  ultimately have "first_match U EXEMPT_PATTERNS (vat_text nrm) \<noteq> None"
    by (simp add: first_match_hd)
  then show ?thesis by (rule exempt_if_cue)
qed

theorem C3_reverse_charge_exempt_witness:
  "has_reverse_charge_phrase sample_db
     (vat_text [''tax_id'' \<mapsto> ustr ''DE123'', ''full_text'' \<mapsto> ustr ''VAT 0% Reverse  Charge.'']) \<and>
   vat (classify_vat sample_db [''tax_id'' \<mapsto> ustr ''DE123'',
          ''full_text'' \<mapsto> ustr ''VAT 0% Reverse  Charge.'']) = ustr ''exempt'' \<and>
   rate (classify_vat sample_db [''tax_id'' \<mapsto> ustr ''DE123'',
          ''full_text'' \<mapsto> ustr ''VAT 0% Reverse  Charge.'']) = 0"
proof -
  let ?r = "[''tax_id'' \<mapsto> ustr ''DE123'', ''full_text'' \<mapsto> ustr ''VAT 0% Reverse  Charge.'']"
  have "vat_text ?r = ustr '' VAT 0% '' @ ustr ''Reverse'' @ ustr ''  '' @ ustr ''Charge'' @ ustr ''.''"
    by (simp add: vat_text_def get_str_def ustr_def)
  moreover have "same_ignoring_case ''reverse'' (ustr ''Reverse'')"
    and "same_ignoring_case ''charge'' (ustr ''Charge'')"
    by (simp_all add: same_ignoring_case_def ustr_def lit_ok_def)
  moreover have "list_all is_space (ustr ''  '')"
    by (simp add: ustr_def is_space_def)
  moreover have "\<not> is_word sample_db (last (ustr '' VAT 0% ''))"
    and "\<not> is_word sample_db (hd (ustr ''.''))"
    by (simp_all add: ustr_def is_word_def)
  ultimately have h: "has_reverse_charge_phrase sample_db (vat_text ?r)"
    unfolding has_reverse_charge_phrase_def by blast
  from h C3_reverse_charge_exempt [OF h] show ?thesis by blast
qed

text \<open>
  The word boundary looks at letters of every script: after U+00E9 the phrase does not
  start a word, so it is no cue, and the German standard rate applies.
\<close>

lemma letter_before_phrase:
  "vat (classify_vat sample_db [''tax_id'' \<mapsto> ustr ''DE123'',
          ''full_text'' \<mapsto> 233 # ustr ''reverse charge'']) = ustr ''standard'' \<and>
   rate (classify_vat sample_db [''tax_id'' \<mapsto> ustr ''DE123'',
          ''full_text'' \<mapsto> 233 # ustr ''reverse charge'']) = 0.19"
  by (simp add: tax_eval)

text \<open>
  Case-insensitive matching folds U+0130 onto \<open>i\<close>: the text that starts with it and
  goes on with "nternational transport" holds a zero-rating cue.
\<close>

lemma dotted_capital_i:
  "vat (classify_vat sample_db [''tax_id'' \<mapsto> ustr ''DE123'',
          ''full_text'' \<mapsto> 304 # ustr ''nternational transport'']) = ustr ''zero-rated''"
  by (simp add: tax_eval)

lemma region_names:
  "ustr ''GCC'' \<noteq> ustr ''EU''" "ustr ''Unknown'' \<noteq> ustr ''EU''"
  "ustr ''Unknown'' \<noteq> ustr ''GCC''"
  by (simp_all add: ustr_def)

lemma gcc_not_a_country: "map_of GCC_STANDARD (ustr ''GCC'') = None"
  by (simp add: GCC_STANDARD_def ustr_def)

lemma hinted_country_rate:
  "map_of CURRENCY_TO_GCC cur = Some country \<Longrightarrow> map_of GCC_STANDARD country \<noteq> None"
proof -
  assume "map_of CURRENCY_TO_GCC cur = Some country"
  then have "(cur, country) \<in> set CURRENCY_TO_GCC" by (rule map_of_SomeD)
  then have "country \<in> fst ` set GCC_STANDARD"
    by (auto simp: CURRENCY_TO_GCC_def GCC_STANDARD_def)
  then show ?thesis by (simp add: map_of_eq_None_iff)
qed

text \<open>
  C4. For every input record with no exemption and no zero-rating cue in its text,
  \<open>classify_vat\<close> returns the classification \<open>standard\<close> with the region and rate of
  the resolution order: tax-identifier prefix (first two characters of the uppercased
  identifier) in the EU table, else in the GCC table, else the (uppercased) currency in
  the currency hint table at the hinted country's rate, else GCC at 0.15 for language
  \<open>ar\<close>, else \<open>Unknown\<close> at 0.15.
\<close>

theorem C4_resolution_order:
  assumes "first_match U EXEMPT_PATTERNS (vat_text nrm) = None"
    and "first_match U ZERO_RATED_PATTERNS (vat_text nrm) = None"
  shows "region (classify_vat U nrm) =
           fst (resolution_order (take 2 (py_upper U (get_str nrm ''tax_id'')))
                  (py_upper U (get_str nrm ''currency'')) (py_lower U (get_str nrm ''language''))) \<and>
         rate (classify_vat U nrm) =
           snd (resolution_order (take 2 (py_upper U (get_str nrm ''tax_id'')))
                  (py_upper U (get_str nrm ''currency'')) (py_lower U (get_str nrm ''language''))) \<and>
         vat (classify_vat U nrm) = ustr ''standard''"
  using assms
  by (auto simp: classify_vat_def decide_region_and_rate_def resolution_order_def Let_def
      region_names gcc_not_a_country dest: hinted_country_rate
      split: option.splits)

text \<open>
  The two examples of the claim, written in lower case: the prefix \<open>de\<close> yields EU
  at 0.19, classification \<open>standard\<close>; the currency \<open>aed\<close> with no recognisable
  prefix yields GCC at 0.05. A tax identifier that starts with U+017F (long s) and
  \<open>e\<close> has the upper-case prefix \<open>SE\<close> and yields EU at 0.25.
\<close>

theorem C4_resolution_order_witness:
  "region (classify_vat sample_db [''tax_id'' \<mapsto> ustr ''de123'', ''currency'' \<mapsto> ustr ''eur'',
      ''full_text'' \<mapsto> ustr ''Acme A-1'']) = ustr ''EU'' \<and>
   rate (classify_vat sample_db [''tax_id'' \<mapsto> ustr ''de123'', ''currency'' \<mapsto> ustr ''eur'',
      ''full_text'' \<mapsto> ustr ''Acme A-1'']) = 0.19 \<and>
   vat (classify_vat sample_db [''tax_id'' \<mapsto> ustr ''de123'', ''currency'' \<mapsto> ustr ''eur'',
      ''full_text'' \<mapsto> ustr ''Acme A-1'']) = ustr ''standard'' \<and>
   region (classify_vat sample_db [''tax_id'' \<mapsto> ustr ''123'', ''currency'' \<mapsto> ustr ''aed'',
      ''full_text'' \<mapsto> ustr ''Acme A-1'']) = ustr ''GCC'' \<and>
   rate (classify_vat sample_db [''tax_id'' \<mapsto> ustr ''123'', ''currency'' \<mapsto> ustr ''aed'',
      ''full_text'' \<mapsto> ustr ''Acme A-1'']) = 0.05 \<and>
   region (classify_vat sample_db [''tax_id'' \<mapsto> 383 # ustr ''e123'',
      ''full_text'' \<mapsto> ustr ''Acme A-1'']) = ustr ''EU'' \<and>
   rate (classify_vat sample_db [''tax_id'' \<mapsto> 383 # ustr ''e123'',
      ''full_text'' \<mapsto> ustr ''Acme A-1'']) = 0.25"
proof -
  let ?de = "[''tax_id'' \<mapsto> ustr ''de123'', ''currency'' \<mapsto> ustr ''eur'',
      ''full_text'' \<mapsto> ustr ''Acme A-1'']"
  let ?ae = "[''tax_id'' \<mapsto> ustr ''123'', ''currency'' \<mapsto> ustr ''aed'',
      ''full_text'' \<mapsto> ustr ''Acme A-1'']"
  let ?se = "[''tax_id'' \<mapsto> 383 # ustr ''e123'', ''full_text'' \<mapsto> ustr ''Acme A-1'']"
  have t: "vat_text ?de = ustr '' Acme A-1''" "vat_text ?ae = ustr '' Acme A-1''"
    "vat_text ?se = ustr '' Acme A-1''"
    by (simp_all add: vat_text_def get_str_def ustr_def)
  have e: "first_match sample_db EXEMPT_PATTERNS (ustr '' Acme A-1'') = None"
    by (simp add: tax_eval)
  have z: "first_match sample_db ZERO_RATED_PATTERNS (ustr '' Acme A-1'') = None"
    by (simp add: tax_eval)
  have de: "resolution_order (take 2 (py_upper sample_db (get_str ?de ''tax_id'')))
      (py_upper sample_db (get_str ?de ''currency'')) (py_lower sample_db (get_str ?de ''language'')) =
      (ustr ''EU'', 0.19)"
    by (simp add: resolution_order_def tax_eval)
  have ae: "resolution_order (take 2 (py_upper sample_db (get_str ?ae ''tax_id'')))
      (py_upper sample_db (get_str ?ae ''currency'')) (py_lower sample_db (get_str ?ae ''language'')) =
      (ustr ''GCC'', 0.05)"
    by (simp add: resolution_order_def tax_eval)
  have se: "resolution_order (take 2 (py_upper sample_db (get_str ?se ''tax_id'')))
      (py_upper sample_db (get_str ?se ''currency'')) (py_lower sample_db (get_str ?se ''language'')) =
      (ustr ''EU'', 0.25)"
    by (simp add: resolution_order_def tax_eval)
  from C4_resolution_order [of sample_db ?de] C4_resolution_order [of sample_db ?ae]
    C4_resolution_order [of sample_db ?se] e z
  show ?thesis unfolding t de ae se by simp
qed

section \<open>Properties of etl.py\<close>

lemmas num_eval =
  py_float_str_def py_int_str_def num_strip_def sign_of_def dec_value_def scale10_def
  digit_value_def digit_zeros_def is_space_def ascii_lower_def ustr_def
  normalize_number_str_def strip_def py_strip_def replace_char_def ar_digits_to_ascii_def
  is_arabic_indic_def Let_def

lemmas b64_eval = b64_def expo_def pow2_def round_half_even_def bit_length.simps Let_def

lemma de_chars:
  "replace_char 44 [46] (replace_char 46 [] s) = map (\<lambda>c. if c = 44 then 46 else c) (filter (\<lambda>c. c \<noteq> 46) s)"
  by (induction s) (simp_all add: replace_char_def)

lemma en_chars: "replace_char 44 [] s = filter (\<lambda>c. c \<noteq> 44) s"
  by (induction s) (simp_all add: replace_char_def)

lemma ar_chars:
  "replace_char 44 [] (replace_char 1643 [46] (replace_char 1644 [] (ar_digits_to_ascii s))) =
   ar_number_chars s"
  by (induction s) (auto simp: replace_char_def ar_digits_to_ascii_def ar_number_chars_def is_arabic_indic_def)

lemma lang_names: "ustr ''de'' \<noteq> ustr ''ar''" "ustr ''en'' \<noteq> ustr ''ar''" "ustr ''en'' \<noteq> ustr ''de''"
  by (simp_all add: ustr_def)

lemma ex_de: "to_float (PStr (ustr ''1.234,56'')) (ustr ''de'') = Inr (Some (b64 1234.56))"
  by (simp add: num_eval)
lemma ex_en: "to_float (PStr (ustr ''1,234.56'')) (ustr ''en'') = Inr (Some (b64 1234.56))"
  by (simp add: num_eval)
lemma ex_ar: "to_float (PStr [1633, 1644, 1634, 1635, 1636, 1643, 1637, 1638]) (ustr ''ar'') = Inr (Some (b64 1234.56))"
  by (simp add: num_eval)

lemma b64_1234_56: "b64 1234.56 = Fin (2714826150374277 / 2199023255552)"
  by (simp add: b64_eval)

lemma int_to_float_Inr: "int_to_float q = Inr f \<Longrightarrow> f = b64 (real_of_int q)"
  by (auto simp: int_to_float_def split: pyfloat.splits)

lemma imul_Inr: "imul q p = Inr v \<Longrightarrow> v = fmul (b64 (real_of_int q)) p"
  by (auto simp: imul_def split: sum.splits dest: int_to_float_Inr)

lemma imul_returns: "(\<exists>v. imul q p = Inr v) \<longleftrightarrow> (\<exists>f. int_to_float q = Inr f)"
  by (auto simp: imul_def split: sum.splits)

lemma normalize_loop_Inr:
  "normalize_loop lang raws (acc, t) = Inr (its, tot) \<Longrightarrow>
     \<exists>new. its = acc @ new \<and> map (normalize_item lang) raws = map Inr new \<and>
           tot = foldl fadd t (map line_total new)"
proof (induction raws arbitrary: acc t)
  case Nil
  then show ?case by simp
next
  case (Cons r raws)
  from Cons.prems obtain c line where c: "normalize_item lang r = Inr c"
    and line: "imul (quantity c) (unit_price c) = Inr line"
    and rest: "normalize_loop lang raws (acc @ [c], fadd t line) = Inr (its, tot)"
    by (auto split: sum.splits)
  from Cons.IH [OF rest] obtain new where new: "its = (acc @ [c]) @ new"
    "map (normalize_item lang) raws = map Inr new"
    "tot = foldl fadd (fadd t line) (map line_total new)"
    by blast
  from imul_Inr [OF line] have "line = line_total c" by (simp add: line_total_def)
  with c new have "its = acc @ (c # new) \<and> map (normalize_item lang) (r # raws) = map Inr (c # new) \<and>
      tot = foldl fadd t (map line_total (c # new))"
    by simp
  then show ?case by blast
qed

lemma normalize_loop_returns:
  "(\<exists>res. normalize_loop lang raws (acc, t) = Inr res) \<longleftrightarrow> list_all (fits lang) raws"
proof (induction raws arbitrary: acc t)
  case Nil
  then show ?case by simp
next
  case (Cons r raws)
  show ?case
  proof (cases "normalize_item lang r")
    case (Inl e)
    then show ?thesis by (simp add: fits_def)
  next
    case (Inr c)
    show ?thesis
    proof (cases "imul (quantity c) (unit_price c)")
      case (Inl e)
      with imul_returns [of "quantity c" "unit_price c"] have "\<not> fits lang r"
        using Inr by (auto simp: fits_def split: sum.splits)
      with Inr Inl show ?thesis by simp
    next
      case line: (Inr line)
      with imul_returns [of "quantity c" "unit_price c"] have "fits lang r"
        using Inr by (auto simp: fits_def split: sum.splits)
      with Inr line Cons.IH [of "acc @ [c]" "fadd t line"] show ?thesis by simp
    qed
  qed
qed

lemma normalize_Inr:
  assumes "normalize U pl lang = Inr n"
  shows "map (normalize_item lang) (raw_items_of pl) = map Inr (items n)"
    and "line_count n = int (length (items n))"
    and "total_amount n = (if items n = [] then None else Some (py_round2 (sum_of_lines (items n))))"
proof -
  from assms obtain its tot
    where lp: "normalize_loop lang (raw_items_of pl) ([], Fin 0) = Inr (its, tot)"
      and n: "items n = its" "line_count n = int (length its)"
        "total_amount n = (if int (length its) \<noteq> 0 then Some (py_round2 tot) else None)"
    by (auto simp: normalize_def raw_items_of_def Let_def split: sum.splits)
  from normalize_loop_Inr [OF lp] have "map (normalize_item lang) (raw_items_of pl) = map Inr its"
    and "tot = sum_of_lines its"
    by (auto simp: sum_of_lines_def)
  with n show "map (normalize_item lang) (raw_items_of pl) = map Inr (items n)"
    and "line_count n = int (length (items n))"
    and "total_amount n = (if items n = [] then None else Some (py_round2 (sum_of_lines (items n))))"
    by simp_all
qed

lemma normalize_returns:
  "(\<exists>n. normalize U pl lang = Inr n) \<longleftrightarrow> list_all (fits lang) (raw_items_of pl)"
proof -
  have "(\<exists>n. normalize U pl lang = Inr n) \<longleftrightarrow>
        (\<exists>res. normalize_loop lang (raw_items_of pl) ([], Fin 0) = Inr res)"
    by (auto simp: normalize_def raw_items_of_def Let_def split: sum.splits)
  with normalize_loop_returns [of lang "raw_items_of pl" "[]" "Fin 0"] show ?thesis by simp
qed

lemma normalize_raises:
  "normalize_loop lang (raw_items_of pl) ([], Fin 0) = Inl e \<Longrightarrow> normalize U pl lang = Inl e"
  by (simp add: normalize_def raw_items_of_def Let_def)

lemma items_unique:
  "map f raws = map Inr xs \<Longrightarrow> map f raws = map Inr ys \<Longrightarrow> xs = ys"
  by (metis inj_Inr inj_map_eq_map)

lemma quantity_normalize_item:
  "normalize_item lang it = Inr c \<Longrightarrow>
     quantity c = (case read_quantity lang it of Some q \<Rightarrow> q | None \<Rightarrow> 1)"
  by (auto simp: normalize_item_def read_quantity_def Let_def split: option.splits pyval.splits sum.splits)

lemma unit_price_normalize_item:
  "normalize_item lang it = Inr c \<Longrightarrow>
     unit_price c = (case read_unit_price lang it of Inr (Some f) \<Rightarrow> f | _ \<Rightarrow> Fin 0)"
  by (auto simp: normalize_item_def read_unit_price_def Let_def truthy_def split: option.splits sum.splits)

lemma normalize_item_keyboard:
  "normalize_item (ustr ''de'') keyboard_item =
     Inr \<lparr> description = ustr ''Keyboard'', quantity = 3, unit_price = Fin 35, category = [] \<rparr>"
  by (simp add: normalize_item_def keyboard_item_def truthy_def num_eval)

lemma normalize_item_eighth:
  "normalize_item (ustr ''de'') eighth_item =
     Inr \<lparr> description = ustr ''Cable'', quantity = 1, unit_price = Fin 0.125, category = [] \<rparr>"
  by (simp add: normalize_item_def eighth_item_def truthy_def num_eval b64_eval)

lemma normalize_item_refund:
  "normalize_item (ustr ''en'') refund_item =
     Inr \<lparr> description = ustr ''Refund'', quantity = - 5, unit_price = Fin (- 3.5), category = [] \<rparr>"
  by (simp add: normalize_item_def refund_item_def truthy_def num_eval b64_eval)

lemma normalize_item_malformed:
  "normalize_item (ustr ''de'') malformed_item =
     Inr \<lparr> description = [], quantity = 1, unit_price = Fin 0, category = [] \<rparr>"
  by (simp add: normalize_item_def malformed_item_def truthy_def num_eval)

lemma int_to_float_small:
  "int_to_float 3 = Inr (Fin 3)" "int_to_float 1 = Inr (Fin 1)" "int_to_float (- 5) = Inr (Fin (- 5))"
  by (simp_all add: int_to_float_def b64_eval)

lemma sum_keyboard_eighth:
  "py_round2 (sum_of_lines
     [\<lparr> description = ustr ''Keyboard'', quantity = 3, unit_price = Fin 35, category = [] \<rparr>,
      \<lparr> description = ustr ''Cable'', quantity = 1, unit_price = Fin 0.125, category = [] \<rparr>]) =
   Fin (924645298494505 / 8796093022208)"
  by (simp add: sum_of_lines_def line_total_def b64_eval)

lemma normalize_item_pen:
  "normalize_item (ustr ''en'') pen_item =
     Inr \<lparr> description = ustr ''Pen'', quantity = 1,
           unit_price = Fin (3011782250804019 / 1125899906842624), category = [] \<rparr>"
  by (simp add: normalize_item_def pen_item_def truthy_def num_eval b64_eval)

lemma sum_pen:
  "py_round2 (sum_of_lines
     [\<lparr> description = ustr ''Pen'', quantity = 1,
        unit_price = Fin (3011782250804019 / 1125899906842624), category = [] \<rparr>]) =
   Fin (1503076375634903 / 562949953421312)"
  by (simp add: sum_of_lines_def line_total_def b64_eval)

lemma fits_samples:
  "fits (ustr ''de'') keyboard_item" "fits (ustr ''de'') eighth_item"
  "fits (ustr ''en'') refund_item" "fits (ustr ''de'') malformed_item"
  "fits (ustr ''en'') pen_item"
  by (simp_all add: fits_def normalize_item_keyboard normalize_item_eighth normalize_item_refund
      normalize_item_malformed normalize_item_pen int_to_float_small)

lemma raw_items_of_acme: "raw_items_of (acme_payload its) = its"
  by (simp add: raw_items_of_def acme_payload_def)

lemma normalize_acme:
  assumes "list_all (fits lang) raws" and "map (normalize_item lang) raws = map Inr cs"
  shows "\<exists>n. normalize U (acme_payload raws) lang = Inr n \<and> items n = cs"
proof -
  from assms(1) normalize_returns [of U "acme_payload raws" lang]
  obtain n where n: "normalize U (acme_payload raws) lang = Inr n"
    by (auto simp: raw_items_of_acme)
  from normalize_Inr(1) [OF n] assms(2) have "items n = cs"
    by (metis items_unique raw_items_of_acme)
  with n show ?thesis by blast
qed

text \<open>
  C2. For every raw submission and language, the canonical invoice that \<open>normalize\<close>
  returns has \<open>total_amount\<close> present if and only if \<open>line_count > 0\<close>; with zero
  items it is \<open>None\<close> (not zero); when present it is the sum of quantity times unit
  price over the items, accumulated in order from 0.0 in binary64 arithmetic, and
  rounded to 2 decimals. \<open>line_count\<close> is the number of items. (\<open>normalize\<close> returns
  exactly when every quantity and every integer unit price is within the float range:
  \<open>normalize_returns\<close>.) In the
  examples, 3 keyboards at 35.0 and one cable at "0,125" give 105.12 (the sum 105.125
  is rounded to even), one pen at "2.675" gives 2.67 (the float nearest to 2.675 lies
  below it), and no item gives \<open>None\<close>.
\<close>

theorem C2_total_amount:
  assumes "normalize U pl lang = Inr n"
  shows "total_amount n =
           (if 0 < line_count n then Some (py_round2 (sum_of_lines (items n))) else None) \<and>
         line_count n = int (length (items n)) \<and>
         ((total_amount n \<noteq> None) = (0 < line_count n))"
  using normalize_Inr(2,3) [OF assms] by simp

theorem C2_total_amount_witness:
  "map_sum id (\<lambda>n. (total_amount n, line_count n))
     (normalize sample_db (acme_payload [keyboard_item, eighth_item]) (ustr ''de'')) =
     Inr (Some (Fin (924645298494505 / 8796093022208)), 2) \<and>
   map_sum id (\<lambda>n. (total_amount n, line_count n))
     (normalize sample_db (acme_payload [pen_item]) (ustr ''en'')) =
     Inr (Some (Fin (1503076375634903 / 562949953421312)), 1) \<and>
   map_sum id (\<lambda>n. (total_amount n, line_count n))
     (normalize sample_db (acme_payload []) (ustr ''de'')) = Inr (None, 0)"
proof -
  have "list_all (fits (ustr ''de'')) [keyboard_item, eighth_item]"
    by (simp add: fits_samples)
  moreover have "map (normalize_item (ustr ''de'')) [keyboard_item, eighth_item] = map Inr
      [\<lparr> description = ustr ''Keyboard'', quantity = 3, unit_price = Fin 35, category = [] \<rparr>,
       \<lparr> description = ustr ''Cable'', quantity = 1, unit_price = Fin 0.125, category = [] \<rparr>]"
    by (simp add: normalize_item_keyboard normalize_item_eighth)
  ultimately obtain a
    where a: "normalize sample_db (acme_payload [keyboard_item, eighth_item]) (ustr ''de'') = Inr a"
      and "items a =
      [\<lparr> description = ustr ''Keyboard'', quantity = 3, unit_price = Fin 35, category = [] \<rparr>,
       \<lparr> description = ustr ''Cable'', quantity = 1, unit_price = Fin 0.125, category = [] \<rparr>]"
    using normalize_acme by blast
  with C2_total_amount [OF a] sum_keyboard_eighth
  have ta: "total_amount a = Some (Fin (924645298494505 / 8796093022208))" "line_count a = 2"
    by simp_all
  have "list_all (fits (ustr ''en'')) [pen_item]"
    by (simp add: fits_samples)
  moreover have "map (normalize_item (ustr ''en'')) [pen_item] = map Inr
      [\<lparr> description = ustr ''Pen'', quantity = 1,
         unit_price = Fin (3011782250804019 / 1125899906842624), category = [] \<rparr>]"
    by (simp add: normalize_item_pen)
  ultimately obtain b
    where b: "normalize sample_db (acme_payload [pen_item]) (ustr ''en'') = Inr b"
      and "items b =
      [\<lparr> description = ustr ''Pen'', quantity = 1,
         unit_price = Fin (3011782250804019 / 1125899906842624), category = [] \<rparr>]"
    using normalize_acme by blast
  with C2_total_amount [OF b] sum_pen
  have tb: "total_amount b = Some (Fin (1503076375634903 / 562949953421312))" "line_count b = 1"
    by simp_all
  have "list_all (fits (ustr ''de'')) []" and "map (normalize_item (ustr ''de'')) [] = map Inr []"
    by simp_all
  then obtain c where c: "normalize sample_db (acme_payload []) (ustr ''de'') = Inr c" and "items c = []"
    using normalize_acme by blast
  with C2_total_amount [OF c] have tc: "total_amount c = None" "line_count c = 0"
    by simp_all
  from a b c ta tb tc show ?thesis by simp
qed

text \<open>
  C9 as stated: every item of the canonical invoice has quantity at least 1 and unit
  price at least 0. This fails: \<open>normalize\<close> does not clamp, and the input
  validation of schema.py passes strings on as they are, so the quantity "-5" and the
  unit price "-3.5" arrive in the canonical item as -5 and -3.5.
\<close>

theorem C9_unclamped_counterexample:
  "map_sum id items (normalize sample_db (acme_payload [refund_item]) (ustr ''en'')) =
     Inr [\<lparr> description = ustr ''Refund'', quantity = - 5, unit_price = Fin (- 3.5), category = [] \<rparr>]"
proof -
  have "list_all (fits (ustr ''en'')) [refund_item]"
    by (simp add: fits_samples)
  moreover have "map (normalize_item (ustr ''en'')) [refund_item] = map Inr
      [\<lparr> description = ustr ''Refund'', quantity = - 5, unit_price = Fin (- 3.5), category = [] \<rparr>]"
    by (simp add: normalize_item_refund)
  ultimately obtain n where "normalize sample_db (acme_payload [refund_item]) (ustr ''en'') = Inr n"
    and "items n = [\<lparr> description = ustr ''Refund'', quantity = - 5, unit_price = Fin (- 3.5), category = [] \<rparr>]"
    using normalize_acme by blast
  then show ?thesis by simp
qed

text \<open>
  C9 as amended: the canonical quantity is the integer read from the raw quantity (1
  when it cannot be read) and the canonical unit price is the float read from the raw
  unit price (0.0 when it cannot be read); nothing is clamped. So every item of the
  canonical invoice that \<open>normalize\<close> returns has quantity at least 1 and unit price
  at least 0 whenever every raw quantity that can be read is at least 1 and every raw
  unit price that can be read is at least 0.
\<close>

theorem C9_items_amended:
  assumes "\<forall>it \<in> set (raw_items_of pl).
             (case read_quantity lang it of Some q \<Rightarrow> 1 \<le> q | None \<Rightarrow> True) \<and>
             (case read_unit_price lang it of Inr (Some f) \<Rightarrow> fge0 f | _ \<Rightarrow> True)"
    and "normalize U pl lang = Inr n"
  shows "\<forall>c \<in> set (items n). 1 \<le> quantity c \<and> fge0 (unit_price c)"
proof
  fix c assume "c \<in> set (items n)"
  then have "Inr c \<in> set (map (normalize_item lang) (raw_items_of pl))"
    using normalize_Inr(1) [OF assms(2)] by simp
  then obtain r where r: "r \<in> set (raw_items_of pl)" and c: "normalize_item lang r = Inr c"
    by auto
  from assms(1) r quantity_normalize_item [OF c] unit_price_normalize_item [OF c]
  show "1 \<le> quantity c \<and> fge0 (unit_price c)"
    by (auto split: option.splits sum.splits)
qed

theorem C9_items_amended_witness:
  "read_quantity (ustr ''de'') keyboard_item = Some 3 \<and>
   read_unit_price (ustr ''de'') keyboard_item = Inr (Some (Fin 35)) \<and>
   read_quantity (ustr ''de'') malformed_item = None \<and>
   read_unit_price (ustr ''de'') malformed_item = Inr None \<and>
   map_sum id (\<lambda>n. list_all (\<lambda>c. 1 \<le> quantity c \<and> fge0 (unit_price c)) (items n))
     (normalize sample_db (acme_payload [keyboard_item, malformed_item]) (ustr ''de'')) = Inr True"
proof -
  have r: "read_quantity (ustr ''de'') keyboard_item = Some 3"
    "read_unit_price (ustr ''de'') keyboard_item = Inr (Some (Fin 35))"
    "read_quantity (ustr ''de'') malformed_item = None"
    "read_unit_price (ustr ''de'') malformed_item = Inr None"
    by (simp_all add: read_quantity_def read_unit_price_def keyboard_item_def malformed_item_def num_eval)
  obtain n where n: "normalize sample_db (acme_payload [keyboard_item, malformed_item]) (ustr ''de'') = Inr n"
    using normalize_returns [of sample_db "acme_payload [keyboard_item, malformed_item]" "ustr ''de''"]
    by (auto simp: raw_items_of_acme fits_samples)
  from r have "\<forall>c \<in> set (items n). 1 \<le> quantity c \<and> fge0 (unit_price c)"
    using C9_items_amended [OF _ n] by (simp add: raw_items_of_acme)
  with r n show ?thesis by (simp add: list_all_iff)
qed

lemma digitpart_zeros: "digitpart (replicate n 48) = (replicate n 0, [])"
proof (induction n)
  case 0
  then show ?case by simp
next
  case (Suc n)
  then show ?case
    by (cases n) (simp_all add: digit_value_def digit_zeros_def split: list.splits)
qed

lemma dec_value_zeros: "foldl (\<lambda>a d. 10 * a + d) (a::nat) (replicate n 0) = a * 10 ^ n"
  by (induction n arbitrary: a) simp_all

lemma dropWhile_id: "xs \<noteq> [] \<Longrightarrow> \<not> P (hd xs) \<Longrightarrow> dropWhile P xs = xs"
  by (cases xs) auto

lemma num_strip_id:
  assumes "s \<noteq> []" and "\<not> is_space (hd s)" and "\<not> is_space (last s)"
  shows "num_strip s = s"
proof -
  let ?P = "\<lambda>c. is_space c \<and> \<not> (28 \<le> c \<and> c \<le> 31)"
  have a: "dropWhile ?P s = s"
    using assms(1,2) by (intro dropWhile_id) auto
  have "hd (rev s) = last s"
    using assms(1) by (simp add: hd_rev)
  with assms(1,3) have b: "dropWhile ?P (rev s) = rev s"
    by (intro dropWhile_id) auto
  show ?thesis
    unfolding num_strip_def a b by simp
qed

lemma one_and_zeros:
  assumes "n < 4300"
  shows "py_int_str (49 # replicate n 48) = Some (10 ^ n)"
proof -
  have "digitpart (49 # replicate n 48) = (1 # replicate n 0, [])"
    using digitpart_zeros [of n]
    by (cases n) (simp_all add: digit_value_def digit_zeros_def split: list.splits)
  moreover have "dec_value (1 # replicate n 0) = 10 ^ n"
    by (simp add: dec_value_def dec_value_zeros)
  moreover have "num_strip (49 # replicate n 48) = 49 # replicate n 48"
    by (rule num_strip_id) (simp_all add: is_space_def)
  ultimately show ?thesis
    using assms by (simp add: py_int_str_def sign_of_def)
qed

lemma huge_quantity: "py_int_str (49 # replicate 309 48) = Some (10 ^ 309)"
  by (rule one_and_zeros) simp

lemma normalize_item_huge:
  "normalize_item (ustr ''en'') huge_item =
     Inr \<lparr> description = ustr ''Bolt'', quantity = 10 ^ 309, unit_price = Fin 1, category = [] \<rparr>"
  by (simp add: normalize_item_def huge_item_def truthy_def huge_quantity lang_names strip_def
      py_strip_def is_space_def ustr_def)

lemma int_to_float_huge: "int_to_float (10 ^ 309) = Inl OverflowError"
  by (simp add: int_to_float_def b64_eval)

text \<open>
  C10 states that \<open>normalize\<close> produces one canonical item per raw line item for
  every raw submission, malformed fields degrading in place. The loop guards
  \<open>int(qty)\<close> and \<open>float(s)\<close> with \<open>try\<close>, but not the product
  \<open>qty * unit_price\<close>: for the quantity string of 1 followed by 309 zeros \<open>int()\<close>
  returns \<open>10 ^ 309\<close>, the product converts it to a float, and \<open>normalize\<close> ends
  with an \<open>OverflowError\<close> instead of a canonical invoice.
\<close>

theorem C10_quantity_overflow:
  "read_quantity (ustr ''en'') huge_item = Some (10 ^ 309) \<and>
   normalize sample_db (acme_payload [huge_item]) (ustr ''en'') = Inl OverflowError"
proof -
  have "read_quantity (ustr ''en'') huge_item = Some (10 ^ 309)"
    by (simp add: read_quantity_def huge_item_def huge_quantity lang_names)
  moreover have "normalize_loop (ustr ''en'') [huge_item] ([], Fin 0) = Inl OverflowError"
    by (simp only: normalize_loop.simps normalize_item_huge sum.case item.select_convs imul_def
        int_to_float_huge)
  ultimately show ?thesis
    by (simp add: normalize_raises raw_items_of_acme)
qed

text \<open>
  C7. Under \<open>de\<close>, "1.234,56" parses to the float 1234.56 (every dot is removed,
  every comma becomes a dot); under \<open>en\<close>, "1,234.56" parses to 1234.56 (every comma
  is removed); under \<open>ar\<close>, Arabic-Indic digits become ASCII digits, the Arabic
  thousands separator (and the comma) is removed and the Arabic decimal separator
  becomes a dot, so that the Arabic spelling of 1,234.56 parses to 1234.56; the float
  1234.56 is the binary64 number 2714826150374277 / 2199023255552; the result for a
  string is \<open>float()\<close> of the normalised string, \<open>None\<close> when that fails.
\<close>

theorem C7_number_parsing:
  "to_float (PStr (ustr ''1.234,56'')) (ustr ''de'') = Inr (Some (b64 1234.56)) \<and>
   to_float (PStr (ustr ''1,234.56'')) (ustr ''en'') = Inr (Some (b64 1234.56)) \<and>
   to_float (PStr [1633, 1644, 1634, 1635, 1636, 1643, 1637, 1638]) (ustr ''ar'') = Inr (Some (b64 1234.56)) \<and>
   b64 1234.56 = Fin (2714826150374277 / 2199023255552) \<and>
   (\<forall>v. normalize_number_str v (ustr ''de'') =
          map (\<lambda>c. if c = 44 then 46 else c) (filter (\<lambda>c. c \<noteq> 46) (py_strip v))) \<and>
   (\<forall>v. normalize_number_str v (ustr ''en'') = filter (\<lambda>c. c \<noteq> 44) (py_strip v)) \<and>
   (\<forall>v. normalize_number_str v (ustr ''ar'') = ar_number_chars (py_strip v)) \<and>
   (\<forall>v lang. to_float (PStr v) lang = Inr (py_float_str (normalize_number_str v lang))) \<and>
   (\<forall>v lang. py_float_str (normalize_number_str v lang) = None \<longrightarrow> to_float (PStr v) lang = Inr None)"
proof -
  have de: "normalize_number_str v (ustr ''de'') =
          map (\<lambda>c. if c = 44 then 46 else c) (filter (\<lambda>c. c \<noteq> 46) (py_strip v))" for v
    by (simp add: normalize_number_str_def Let_def lang_names de_chars strip_def)
  have en: "normalize_number_str v (ustr ''en'') = filter (\<lambda>c. c \<noteq> 44) (py_strip v)" for v
    by (simp add: normalize_number_str_def Let_def lang_names en_chars strip_def)
  have ar: "normalize_number_str v (ustr ''ar'') = ar_number_chars (py_strip v)" for v
    by (simp add: normalize_number_str_def Let_def ar_chars strip_def)
  from ex_de ex_en ex_ar b64_1234_56 de en ar show ?thesis by simp
qed

theorem C7_number_parsing_witness:
  "py_float_str (normalize_number_str (ustr ''12,5a'') (ustr ''de'')) = None \<and>
   to_float (PStr (ustr ''12,5a'')) (ustr ''de'') = Inr None \<and>
   to_float (PStr (ustr ''1.234,56'')) (ustr ''de'') = Inr (Some (Fin (2714826150374277 / 2199023255552))) \<and>
   normalize_number_str [32, 1633, 1644, 1634, 1643, 1637] (ustr ''ar'') = ustr ''12.5''"
proof -
  have none: "py_float_str (normalize_number_str (ustr ''12,5a'') (ustr ''de'')) = None"
    by (simp add: num_eval)
  with C7_number_parsing have "to_float (PStr (ustr ''12,5a'')) (ustr ''de'') = Inr None"
    by blast
  moreover from C7_number_parsing
  have "to_float (PStr (ustr ''1.234,56'')) (ustr ''de'') = Inr (Some (b64 1234.56)) \<and>
        b64 1234.56 = Fin (2714826150374277 / 2199023255552)"
    by blast
  then have "to_float (PStr (ustr ''1.234,56'')) (ustr ''de'') =
      Inr (Some (Fin (2714826150374277 / 2199023255552)))"
    by (elim conjE) (simp only:)
  moreover have "ar_number_chars (py_strip [32, 1633, 1644, 1634, 1643, 1637]) = ustr ''12.5''"
    by (simp add: ar_number_chars_def py_strip_def is_space_def is_arabic_indic_def ustr_def)
  with C7_number_parsing
  have "normalize_number_str [32, 1633, 1644, 1634, 1643, 1637] (ustr ''ar'') = ustr ''12.5''"
    by (elim conjE) (simp only:)
  ultimately show ?thesis using none by (intro conjI)
qed

subsection \<open>Dates\<close>

lemma ascii_digit_value: "x \<le> 9 \<Longrightarrow> digit_value (48 + x) = Some x"
  by (simp add: digit_value_def digit_zeros_def)

lemma str_of_nat_small: "n < 10 \<Longrightarrow> str_of_nat n = [48 + n]"
  by (subst str_of_nat.simps) simp

lemma str_of_nat_step: "0 < q \<Longrightarrow> r < 10 \<Longrightarrow> str_of_nat (10 * q + r) = str_of_nat q @ [48 + r]"
  by (subst str_of_nat.simps) simp

lemma digits4_decompose:
  assumes "y \<le> 9999"
  obtains a b c d where "y = 10 * (10 * (10 * a + b) + c) + d"
    and "a < 10" "b < 10" "c < 10" "d < 10"
    and "digits4 y = [48 + a, 48 + b, 48 + c, 48 + d]"
proof -
  define q1 q2 q3 where "q1 = y div 10" and "q2 = q1 div 10" and "q3 = q2 div 10"
  define b c d where "b = q2 mod 10" and "c = q1 mod 10" and "d = y mod 10"
  have e1: "y = 10 * q1 + d" and e2: "q1 = 10 * q2 + c" and e3: "q2 = 10 * q3 + b"
    by (simp_all add: q1_def q2_def q3_def b_def c_def d_def)
  have lt: "b < 10" "c < 10" "d < 10"
    by (simp_all add: b_def c_def d_def)
  have q3: "q3 < 10" using assms e1 e2 e3 by linarith
  have "y div 100 = q2" "y div 1000 = q3"
    by (simp_all add: q1_def q2_def q3_def div_mult2_eq)
  then have "digits4 y = [48 + q3, 48 + b, 48 + c, 48 + d]"
    using q3 by (simp add: digits4_def b_def c_def d_def q1_def)
  moreover have "y = 10 * (10 * (10 * q3 + b) + c) + d"
    using e1 e2 e3 by simp
  ultimately show ?thesis using that lt q3 by blast
qed

lemma str_of_nat_4:
  assumes "1000 \<le> y" "y \<le> 9999"
  shows "str_of_nat y = digits4 y"
proof -
  from assms(2) obtain a b c d where y: "y = 10 * (10 * (10 * a + b) + c) + d"
    and lt: "a < 10" "b < 10" "c < 10" "d < 10"
    and ds: "digits4 y = [48 + a, 48 + b, 48 + c, 48 + d]"
    by (rule digits4_decompose)
  have "0 < a" using assms(1) y lt by (cases "a = 0") auto
  then have s1: "str_of_nat (10 * a + b) = [48 + a, 48 + b]"
    using lt by (simp add: str_of_nat_step str_of_nat_small)
  have s2: "str_of_nat (10 * (10 * a + b) + c) = [48 + a, 48 + b, 48 + c]"
    using str_of_nat_step [of "10 * a + b" c] \<open>0 < a\<close> lt s1 by simp
  have "str_of_nat (10 * (10 * (10 * a + b) + c) + d) = [48 + a, 48 + b, 48 + c, 48 + d]"
    using str_of_nat_step [of "10 * (10 * a + b) + c" d] \<open>0 < a\<close> lt s2 by simp
  then show ?thesis using y ds by simp
qed

lemma digits2_decompose:
  assumes "n < 100"
  obtains q r where "n = 10 * q + r" "q < 10" "r < 10" "digits2 n = [48 + q, 48 + r]"
proof -
  define q r where "q = n div 10" and "r = n mod 10"
  have e: "n = 10 * q + r" and r: "r < 10" by (simp_all add: q_def r_def)
  have q: "q < 10" using assms e by linarith
  then have "digits2 n = [48 + q, 48 + r]"
    by (simp add: digits2_def q_def r_def)
  with e q r show ?thesis using that by blast
qed

lemma pad2_digits2: "n < 100 \<Longrightarrow> pad2 n = digits2 n"
proof -
  assume "n < 100"
  then obtain q r where n: "n = 10 * q + r" and lt: "q < 10" "r < 10"
    and ds: "digits2 n = [48 + q, 48 + r]"
    by (rule digits2_decompose)
  show ?thesis
  proof (cases "q = 0")
    case True
    then show ?thesis using n lt ds by (simp add: pad2_def str_of_nat_small)
  next
    case False
    then have "str_of_nat (10 * q + r) = [48 + q, 48 + r]"
      using lt by (simp add: str_of_nat_step str_of_nat_small)
    moreover have "\<not> n < 10" using False n by simp
    ultimately show ?thesis using n ds by (simp add: pad2_def)
  qed
qed

lemma strftime_iso_text:
  "1000 \<le> y \<Longrightarrow> y \<le> 9999 \<Longrightarrow> m < 100 \<Longrightarrow> d < 100 \<Longrightarrow> strftime_Ymd (y, m, d) = iso_text y m d"
  by (simp add: strftime_Ymd_def iso_text_def str_of_nat_4 pad2_digits2)

lemma first_success_hd: "f x = Some y \<Longrightarrow> first_success f (x # xs) = Some y"
  by simp

lemma first_success_none: "(\<And>x. x \<in> set xs \<Longrightarrow> f x = None) \<Longrightarrow> first_success f xs = None"
  by (induction xs) auto

lemma alts_DY_digits4:
  "y \<le> 9999 \<Longrightarrow> alts DY (digits4 y @ r) = [(y, r)]"
proof -
  assume "y \<le> 9999"
  then obtain a b c d where y: "y = 10 * (10 * (10 * a + b) + c) + d"
    and lt: "a < 10" "b < 10" "c < 10" "d < 10"
    and ds: "digits4 y = [48 + a, 48 + b, 48 + c, 48 + d]"
    by (rule digits4_decompose)
  show ?thesis unfolding ds using lt y by (simp add: ascii_digit_value)
qed

lemma alts_Dm_digits2:
  assumes "1 \<le> m" "m \<le> 12"
  shows "\<exists>more. alts Dm (digits2 m @ r) = (m, r) # more"
proof -
  from assms obtain q t where m: "m = 10 * q + t" and lt: "q < 10" "t < 10"
    and ds: "digits2 m = [48 + q, 48 + t]"
    using digits2_decompose [of m] by auto
  have "q = 0 \<or> q = 1" using assms m by linarith
  then show ?thesis
  proof
    assume "q = 0"
    then show ?thesis unfolding ds using assms m lt by (simp add: ascii_digit_def)
  next
    assume "q = 1"
    then show ?thesis unfolding ds using assms m lt by (simp add: ascii_digit_def)
  qed
qed

lemma alts_Dd_digits2:
  assumes "1 \<le> d" "d \<le> 31"
  shows "\<exists>more. alts Dd (digits2 d @ r) = (d, r) # more"
proof -
  from assms obtain q t where d: "d = 10 * q + t" and lt: "q < 10" "t < 10"
    and ds: "digits2 d = [48 + q, 48 + t]"
    using digits2_decompose [of d] by auto
  have "q = 0 \<or> q = 1 \<or> q = 2 \<or> q = 3" using assms d by linarith
  then show ?thesis
  proof (elim disjE)
    assume "q = 0"
    then show ?thesis unfolding ds using assms d lt by (simp add: ascii_digit_def)
  next
    assume "q = 1"
    then show ?thesis unfolding ds using assms d lt by (simp add: ascii_digit_def ascii_digit_value)
  next
    assume "q = 2"
    then show ?thesis unfolding ds using assms d lt by (simp add: ascii_digit_def ascii_digit_value)
  next
    assume "q = 3"
    then show ?thesis unfolding ds using assms d lt by (simp add: ascii_digit_def)
  qed
qed

lemma days_in_month_le: "days_in_month y m \<le> 31"
  by (simp add: days_in_month_def)

lemma strptime_iso_text:
  assumes "valid_date y m d"
  shows "strptime (iso_text y m d) fmt_iso = Some (y, m, d)"
proof -
  from assms have y: "y \<le> 9999" and m: "1 \<le> m" "m \<le> 12" and d: "1 \<le> d" "d \<le> 31"
    using days_in_month_le [of y m] by (auto simp: valid_date_def)
  obtain more_m where am: "alts Dm (digits2 m @ [45] @ digits2 d) = (m, [45] @ digits2 d) # more_m"
    using alts_Dm_digits2 [OF m] by blast
  obtain more_d where ad: "alts Dd (digits2 d) = (d, []) # more_d"
    using alts_Dd_digits2 [OF d, of "[]"] by auto
  have "match_format fmt_iso (iso_text y m d) (1900, 1, 1) = Some ((y, m, d), [])"
    using alts_DY_digits4 [OF y, of "[45] @ digits2 m @ [45] @ digits2 d"] am ad
    by (simp add: fmt_iso_def iso_text_def)
  then show ?thesis using assms by (simp add: strptime_def)
qed


lemma alts_Dd_rest:
  "(v, rest) \<in> set (alts Dd (a # b # c # r)) \<Longrightarrow> rest = c # r \<or> rest = b # c # r"
  by (auto split: if_splits)

lemma match_dmY_fails:
  assumes "y \<le> 9999" "l < 48"
  shows "match_format (Dd # DLit l # fs) (digits4 y @ r) acc = None"
proof -
  from assms(1) obtain a b c d where
    ds: "digits4 y = [48 + a, 48 + b, 48 + c, 48 + d]"
    by (rule digits4_decompose)
  have "match_format (DLit l # fs) rest acc' = None"
    if "(v, rest) \<in> set (alts Dd (digits4 y @ r))" for v rest acc'
  proof -
    from that have "rest = (48 + c) # (48 + d) # r \<or> rest = (48 + b) # (48 + c) # (48 + d) # r"
      unfolding ds using alts_Dd_rest [of v rest "48 + a" "48 + b" "48 + c" "(48 + d) # r"] by simp
    then show ?thesis using assms(2) by auto
  qed
  then have "(case x of (v, r') \<Rightarrow> match_format (DLit l # fs) r' (set_field Dd v acc)) = None"
    if "x \<in> set (alts Dd (digits4 y @ r))" for x
    using that by (cases x) (simp del: match_format.simps alts.simps)
  then show ?thesis
    by (subst match_format.simps) (rule first_success_none)
qed

lemma strptime_dmY_fails:
  assumes "y \<le> 9999"
  shows "strptime (iso_text y m d) fmt_dmY_dot = None"
    and "strptime (iso_text y m d) fmt_dmY_slash = None"
    and "strptime (iso_text y m d) fmt_dmY_dash = None"
proof -
  have "match_format (Dd # DLit l # fs) (iso_text y m d) acc = None" if "l < 48" for l fs acc
    unfolding iso_text_def using match_dmY_fails [OF assms that] by blast
  then show "strptime (iso_text y m d) fmt_dmY_dot = None"
    and "strptime (iso_text y m d) fmt_dmY_slash = None"
    and "strptime (iso_text y m d) fmt_dmY_dash = None"
    by (simp_all add: strptime_def fmt_dmY_dot_def fmt_dmY_slash_def fmt_dmY_dash_def
        del: match_format.simps)
qed

lemma try_formats_iso_text:
  assumes "valid_date y m d" "1000 \<le> y"
  shows "try_formats (patterns lang) (iso_text y m d) = Some (iso_text y m d)"
proof -
  from assms have y: "y \<le> 9999" and md: "m < 100" "d < 100"
    using days_in_month_le [of y m] by (auto simp: valid_date_def)
  have out: "strftime_Ymd (y, m, d) = iso_text y m d"
    using assms(2) y md by (rule strftime_iso_text)
  show ?thesis
    by (simp add: patterns_def strptime_iso_text [OF assms(1)] strptime_dmY_fails [OF y] out)
qed

lemma py_strip_id:
  assumes "s \<noteq> []" "\<not> is_space (hd s)" "\<not> is_space (last s)"
  shows "py_strip s = s"
proof -
  have "dropWhile is_space s = s" using assms by (cases s) auto
  moreover have "dropWhile is_space (rev s) = rev s"
    using assms by (cases "rev s") (auto simp: hd_rev)
  ultimately show ?thesis by (simp add: py_strip_def)
qed

lemma replace_char_id: "old \<notin> set s \<Longrightarrow> replace_char old new s = s"
  by (induction s) (auto simp: replace_char_def)

lemma iso_text_chars: "c \<in> set (iso_text y m d) \<Longrightarrow> 45 \<le> c \<and> c \<le> 57"
proof -
  have "n mod 10 \<le> 9" for n :: nat by simp
  then have "45 \<le> 48 + n mod 10 \<and> 48 + n mod 10 \<le> 57" for n :: nat
    by (simp add: add_le_mono)
  moreover assume "c \<in> set (iso_text y m d)"
  ultimately show ?thesis
    by (auto simp: iso_text_def digits4_def digits2_def)
qed

lemma strip_iso_text: "strip (Some (iso_text y m d)) = iso_text y m d"
proof -
  have "iso_text y m d \<noteq> []" by (simp add: iso_text_def digits4_def)
  moreover have "hd (iso_text y m d) \<in> set (iso_text y m d)"
    and "last (iso_text y m d) \<in> set (iso_text y m d)"
    using calculation by simp_all
  then have "\<not> is_space (hd (iso_text y m d))" "\<not> is_space (last (iso_text y m d))"
    using iso_text_chars by (fastforce simp: is_space_def)+
  ultimately show ?thesis by (simp add: strip_def py_strip_id)
qed

lemmas date_eval =
  parse_date_localized_def strip_def py_strip_def is_space_def is_arabic_indic_def
  replace_char_def patterns_def fallbacks_def strptime_def valid_date_def days_in_month_def
  is_leap_def fmt_iso_def fmt_mdY_slash_def fmt_mdY_dash_def fmt_dmY_slash_def
  fmt_dmY_dash_def fmt_dmY_dot_def ascii_digit_def digit_value_def digit_zeros_def
  strftime_Ymd_def pad2_def ustr_def Let_def

text \<open>
  C8 as stated: every valid ISO date string comes back unchanged. This fails for the
  year 0000, which ISO 8601 has and \<open>datetime\<close> does not: \<open>strptime\<close> raises for
  every format and the result is \<open>None\<close>.
\<close>

theorem C8_year_zero_counterexample:
  "iso_text 0 1 1 = ustr ''0000-01-01'' \<and>
   parse_date_localized (ustr ''0000-01-01'') (ustr ''en'') = None"
  by (simp add: iso_text_def digits4_def digits2_def date_eval)

text \<open>
  For the years 0001 to 0999 the result depends on how the C library prints \<open>%Y\<close>;
  with glibc the year comes back without its leading zeros.
\<close>

lemma short_year_example:
  "parse_date_localized (ustr ''0999-01-01'') (ustr ''en'') = Some (ustr ''999-01-01'')"
  by (simp add: date_eval str_of_nat.simps)

text \<open>
  C8 as amended: for every valid ISO 8601 date string \<open>YYYY-MM-DD\<close> with a year from
  1000 to 9999, and for every language (the supported \<open>en\<close>, \<open>de\<close>, \<open>ar\<close> and
  any other, which is treated as \<open>en\<close>), date parsing returns the same string.
\<close>

theorem C8_iso_round_trip:
  assumes "valid_date y m d" and "1000 \<le> y"
  shows "parse_date_localized (iso_text y m d) lang = Some (iso_text y m d)"
proof -
  let ?s = "iso_text y m d"
  have ne: "?s \<noteq> []" by (simp add: iso_text_def digits4_def)
  have no_ar: "\<not> list_ex is_arabic_indic ?s"
    using iso_text_chars [of _ y m d] by (fastforce simp: list_ex_iff is_arabic_indic_def)
  have "1643 \<notin> set ?s" "1644 \<notin> set ?s"
    using iso_text_chars [of _ y m d] by fastforce+
  then have same: "replace_char 1644 [] (replace_char 1643 [46] ?s) = ?s"
    by (simp add: replace_char_id)
  show ?thesis
    by (simp add: parse_date_localized_def Let_def strip_iso_text ne no_ar same
        try_formats_iso_text [OF assms])
qed

theorem C8_iso_round_trip_witness:
  "valid_date 2025 7 10 \<and>
   parse_date_localized (ustr ''2025-07-10'') (ustr ''de'') = Some (ustr ''2025-07-10'')"
proof -
  have v: "valid_date 2025 7 10" by (simp add: valid_date_def days_in_month_def)
  have "iso_text 2025 7 10 = ustr ''2025-07-10''"
    by (simp add: iso_text_def digits4_def digits2_def ustr_def)
  with v C8_iso_round_trip [OF v, of "ustr ''de''"] show ?thesis by simp
qed

section \<open>Properties of explain.py\<close>

subsection \<open>Counting\<close>

lemma cnt_bump: "cnt (bump k m) t = cnt m t + (if t = k then 1 else 0)"
  by (induction m) (auto simp: cnt_def)

lemma keys_bump: "set (map fst (bump k m)) = insert k (set (map fst m))"
  by (induction k m rule: bump.induct) auto

lemma distinct_bump: "distinct (map fst m) \<Longrightarrow> distinct (map fst (bump k m))"
proof (induction m)
  case Nil
  then show ?case by simp
next
  case (Cons e m)
  have "set (map fst (bump k m)) = insert k (set (map fst m))" by (rule keys_bump)
  with Cons show ?case by (cases e) auto
qed

lemma cnt_fold: "cnt (foldl (\<lambda>m k. bump k m) m xs) t = cnt m t + count_list xs t"
  by (induction xs arbitrary: m) (auto simp: cnt_bump)

lemma keys_fold:
  "set (map fst (foldl (\<lambda>m k. bump k m) m xs)) = set (map fst m) \<union> set xs"
  by (induction xs arbitrary: m) (simp_all add: keys_bump del: set_map)

lemma distinct_fold:
  "distinct (map fst m) \<Longrightarrow> distinct (map fst (foldl (\<lambda>m k. bump k m) m xs))"
  by (induction xs arbitrary: m) (auto simp: distinct_bump)

lemma keys_counter: "set (map fst (counter xs)) = set xs"
  by (simp add: counter_def keys_fold del: set_map)

lemma distinct_counter: "distinct (map fst (counter xs))"
  by (simp add: counter_def distinct_fold)

lemma counter_count: "(t, c) \<in> set (counter xs) \<Longrightarrow> c = count_list xs t"
proof -
  assume "(t, c) \<in> set (counter xs)"
  then have "map_of (counter xs) t = Some c"
    by (simp add: map_of_eq_Some_iff [OF distinct_counter])
  then have "cnt (counter xs) t = c" by (simp add: cnt_def)
  moreover have "cnt (counter xs) t = cnt [] t + count_list xs t"
    unfolding counter_def by (rule cnt_fold)
  moreover have "cnt [] t = 0" by (simp add: cnt_def)
  ultimately show ?thesis by simp
qed

lemma length_counter: "length (counter xs) = card (set xs)"
proof -
  have "length (counter xs) = length (map fst (counter xs))" by simp
  also have "\<dots> = card (set (map fst (counter xs)))"
    by (simp only: distinct_card [OF distinct_counter])
  also have "\<dots> = card (set xs)" by (simp only: keys_counter)
  finally show ?thesis .
qed

subsection \<open>\<open>most_common\<close>\<close>

lemma set_most_common: "set (most_common n m) \<subseteq> set m"
  using set_take_subset [of n "sort_key (\<lambda>e. - int (snd e)) m"] by (simp add: most_common_def)

lemma length_most_common: "length (most_common n m) = min n (length m)"
  by (simp add: most_common_def min.commute)

lemma distinct_most_common:
  assumes "distinct (map fst m)"
  shows "distinct (map fst (most_common n m))"
proof -
  from assms have d: "distinct m" and i: "inj_on fst (set m)"
    by (simp_all add: distinct_map)
  have "distinct (most_common n m)" using d by (simp add: most_common_def)
  moreover have "inj_on fst (set (most_common n m))"
    using i set_most_common by (rule inj_on_subset)
  ultimately show ?thesis by (simp add: distinct_map)
qed

lemma sorted_most_common:
  "sorted_wrt (\<lambda>a b. snd b \<le> snd a) (most_common n m)"
proof -
  have "sorted (map (\<lambda>e. - int (snd e)) (sort_key (\<lambda>e. - int (snd e)) m))"
    by (rule sorted_sort_key)
  then have "sorted (take n (map (\<lambda>e. - int (snd e)) (sort_key (\<lambda>e. - int (snd e)) m)))"
    by (rule sorted_wrt_take)
  then have "sorted (map (\<lambda>e. - int (snd e)) (most_common n m))"
    by (simp add: most_common_def take_map)
  then show ?thesis by (simp add: sorted_wrt_map)
qed

lemma most_common_top:
  assumes "e \<in> set m" "e \<notin> set (most_common n m)" "e' \<in> set (most_common n m)"
  shows "snd e \<le> snd e'"
proof -
  let ?s = "sort_key (\<lambda>e. - int (snd e)) m"
  let ?g = "\<lambda>e::'a \<times> nat. - int (snd e)"
  have "sorted (map ?g ?s)" by (rule sorted_sort_key)
  then have "sorted (map ?g (take n ?s) @ map ?g (drop n ?s))"
    by (simp only: map_append [symmetric] append_take_drop_id)
  then have "\<forall>x\<in>set (map ?g (take n ?s)). \<forall>y\<in>set (map ?g (drop n ?s)). x \<le> y"
    unfolding sorted_append by blast
  then have *: "\<forall>x\<in>set (take n ?s). \<forall>y\<in>set (drop n ?s). snd y \<le> snd x"
    by auto
  have "e \<in> set (take n ?s @ drop n ?s)" using assms(1) by simp
  then have "e \<in> set (drop n ?s)"
    using assms(2) unfolding most_common_def set_append by blast
  with * assms(3) show ?thesis by (simp add: most_common_def)
qed

subsection \<open>Normalised weights\<close>

lemma py_max_Max: "xs \<noteq> [] \<Longrightarrow> py_max xs = Max (set xs)"
proof (cases xs)
  case Nil
  assume "xs \<noteq> []"
  with Nil show ?thesis by simp
next
  case (Cons a l)
  show ?thesis unfolding Cons py_max_def by (simp only: list.case Max.set_eq_fold)
qed

lemma normalised_weights:
  assumes "tp \<noteq> []"
  defines "m \<equiv> py_max (map (\<lambda>t. \<bar>snd t\<bar>) tp)"
  defines "d \<equiv> (if m = 0 then 1 else m)"
  shows "\<forall>t \<in> set tp. \<bar>snd t / d\<bar> \<le> 1"
    and "(\<forall>t \<in> set tp. snd t / d = 0) \<or> (\<exists>t \<in> set tp. \<bar>snd t / d\<bar> = 1)"
proof -
  let ?A = "set (map (\<lambda>t. \<bar>snd t\<bar>) tp)"
  have m: "m = Max ?A" using assms(1) by (simp add: m_def py_max_Max)
  have fin: "finite ?A" and ne: "?A \<noteq> {}" using assms(1) by simp_all
  have ge: "\<bar>snd t\<bar> \<le> m" if "t \<in> set tp" for t
    unfolding m using that by (intro Max_ge) auto
  have "m \<in> ?A" unfolding m using fin ne by (rule Max_in)
  then obtain t0 where t0: "t0 \<in> set tp" "\<bar>snd t0\<bar> = m" by auto
  then have m0: "0 \<le> m" by auto
  show "\<forall>t \<in> set tp. \<bar>snd t / d\<bar> \<le> 1"
  proof
    fix t assume "t \<in> set tp"
    then have "\<bar>snd t\<bar> \<le> m" by (rule ge)
    then show "\<bar>snd t / d\<bar> \<le> 1" using m0 by (auto simp: d_def)
  qed
  show "(\<forall>t \<in> set tp. snd t / d = 0) \<or> (\<exists>t \<in> set tp. \<bar>snd t / d\<bar> = 1)"
  proof (cases "m = 0")
    case True
    then have "snd t = 0" if "t \<in> set tp" for t using ge [OF that] by simp
    then show ?thesis by simp
  next
    case False
    then have "\<bar>snd t0 / d\<bar> = 1" using t0 m0 by (simp add: d_def)
    then show ?thesis using t0 by blast
  qed
qed


subsection \<open>The explanation\<close>

lemma length_top_token_contributions:
  "length (top_token_contributions model text k) \<le> k"
  by (simp add: top_token_contributions_def Let_def split: option.splits)

lemma weights_top_token_contributions:
  "(\<forall>tw \<in> set (top_token_contributions model text k). \<bar>weight tw\<bar> \<le> 1) \<and>
   ((\<forall>tw \<in> set (top_token_contributions model text k). weight tw = 0) \<or>
    (\<exists>tw \<in> set (top_token_contributions model text k). \<bar>weight tw\<bar> = 1))"
proof (cases model)
  case None
  then show ?thesis by (simp add: top_token_contributions_def)
next
  case (Some contributions)
  define tp where "tp = take k (sort_key (\<lambda>t. - \<bar>snd t\<bar>) (contributions text))"
  define d where "d = (if py_max (map (\<lambda>t. \<bar>snd t\<bar>) tp) = 0 then 1
                       else py_max (map (\<lambda>t. \<bar>snd t\<bar>) tp))"
  have r: "top_token_contributions model text k =
      map (\<lambda>(tok, w). \<lparr> token = tok, weight = w \<rparr>)
        (if tp \<noteq> [] then map (\<lambda>(tok, w). (tok, w / d)) tp else tp)"
    unfolding top_token_contributions_def Let_def Some tp_def d_def
    by (simp only: option.case) simp
  show ?thesis
  proof (cases "tp = []")
    case True
    then show ?thesis unfolding r by simp
  next
    case False
    have "\<forall>t \<in> set tp. \<bar>snd t / d\<bar> \<le> 1"
      and "(\<forall>t \<in> set tp. snd t / d = 0) \<or> (\<exists>t \<in> set tp. \<bar>snd t / d\<bar> = 1)"
      unfolding d_def using normalised_weights [OF False] by blast+
    then show ?thesis unfolding r using False by (auto simp: case_prod_unfold)
  qed
qed

lemma method_names: "ustr ''linear_contribution'' \<noteq> ustr ''feature_importances''"
  by (simp add: ustr_def)

lemma explain_model_path:
  assumes "top_token_contributions model (py_lower U (full_text nrm)) 5 \<noteq> []"
  shows "explain_for_payload U model nrm =
     \<lparr> method_tag = ustr ''linear_contribution'',
       top_tokens = top_token_contributions model (py_lower U (full_text nrm)) 5 \<rparr>"
  using assms by (simp add: explain_for_payload_def Let_def)

lemma explain_fallback_path:
  assumes "top_token_contributions model (py_lower U (full_text nrm)) 5 = []"
  shows "explain_for_payload U model nrm =
     \<lparr> method_tag = ustr ''feature_importances'',
       top_tokens = map (\<lambda>e. \<lparr> token = fst e, weight = real (snd e) / 10 \<rparr>)
                      (most_common 3 (counter (fallback_tokens U nrm))) \<rparr>"
  using assms by (simp add: explain_for_payload_def Let_def fallback_tokens_def case_prod_unfold)

lemma fallback_list:
  fixes tokens :: "pystr list"
  defines "mc \<equiv> most_common 3 (counter tokens)"
  defines "res \<equiv> map (\<lambda>e. \<lparr> token = fst e, weight = real (snd e) / 10 \<rparr>) mc"
  shows "length res = min 3 (card (set tokens))"
    and "distinct (map token res)"
    and "\<forall>tw \<in> set res. token tw \<in> set tokens \<and>
           weight tw = real (count_list tokens (token tw)) / 10"
    and "sorted_wrt (\<lambda>a b. weight b \<le> weight a) res"
    and "\<forall>t \<in> set tokens. t \<notin> token ` set res \<longrightarrow>
           (\<forall>tw \<in> set res. count_list tokens t \<le> count_list tokens (token tw))"
proof -
  have sub: "set mc \<subseteq> set (counter tokens)"
    unfolding mc_def by (rule set_most_common)
  have entry: "fst e \<in> set tokens \<and> snd e = count_list tokens (fst e)" if "e \<in> set mc" for e
  proof -
    from that sub have e: "(fst e, snd e) \<in> set (counter tokens)" by auto
    then have "fst e \<in> set (map fst (counter tokens))" by force
    then have "fst e \<in> set tokens" by (simp only: keys_counter)
    with counter_count [OF e] show ?thesis by simp
  qed
  show "length res = min 3 (card (set tokens))"
    by (simp add: res_def mc_def length_most_common length_counter)
  have tok: "map token res = map fst mc" by (simp add: res_def)
  show "distinct (map token res)"
    unfolding tok mc_def using distinct_counter by (rule distinct_most_common)
  show "\<forall>tw \<in> set res. token tw \<in> set tokens \<and>
           weight tw = real (count_list tokens (token tw)) / 10"
    using entry by (auto simp: res_def)
  have "sorted_wrt (\<lambda>a b. snd b \<le> snd a) mc"
    unfolding mc_def by (rule sorted_most_common)
  then show "sorted_wrt (\<lambda>a b. weight b \<le> weight a) res"
    by (simp add: res_def sorted_wrt_map)
  show "\<forall>t \<in> set tokens. t \<notin> token ` set res \<longrightarrow>
           (\<forall>tw \<in> set res. count_list tokens t \<le> count_list tokens (token tw))"
  proof (intro ballI impI)
    fix t tw
    assume t: "t \<in> set tokens" and out: "t \<notin> token ` set res" and tw: "tw \<in> set res"
    from t have "t \<in> set (map fst (counter tokens))" by (simp only: keys_counter)
    then obtain c where c: "(t, c) \<in> set (counter tokens)" by auto
    then have ct: "c = count_list tokens t" by (rule counter_count)
    from tw obtain e where e: "e \<in> set mc" "tw = \<lparr> token = fst e, weight = real (snd e) / 10 \<rparr>"
      by (auto simp: res_def)
    have "(t, c) \<notin> set mc"
    proof
      assume "(t, c) \<in> set mc"
      then have "t \<in> token ` set res" by (force simp: res_def)
      with out show False by simp
    qed
    have notin: "(t, c) \<notin> set mc" by fact
    from c notin e(1) have "snd (t, c) \<le> snd e"
      unfolding mc_def by (rule most_common_top)
    then show "count_list tokens t \<le> count_list tokens (token tw)"
      using ct e entry [OF e(1)] by simp
  qed
qed

lemmas explain_eval =
  explain_for_payload_def top_token_contributions_def fallback_tokens_def py_split_def
  counter_def most_common_def py_max_def py_lower_def sample_db_def is_space_def
  empty_invoice_def ustr_def Let_def

text \<open>
  C6 as stated: whenever the returned list is non-empty its maximum absolute weight is
  exactly 1.0, and the fallback weights are rank_index/10.0. This fails on the
  fallback path (no model, or no contribution): the weights are the token counts
  divided by 10 and are not rescaled. For the text "Monitor monitor keyboard" the
  list is monitor at 0.2 and keyboard at 0.1.
\<close>

theorem C6_fallback_weights_counterexample:
  "explain_for_payload sample_db None (empty_invoice\<lparr> full_text := ustr ''Monitor monitor keyboard'' \<rparr>) =
     \<lparr> method_tag = ustr ''feature_importances'',
       top_tokens = [\<lparr> token = ustr ''monitor'', weight = 0.2 \<rparr>,
                     \<lparr> token = ustr ''keyboard'', weight = 0.1 \<rparr>] \<rparr>"
  by (simp add: explain_eval)

text \<open>
  C6 as amended: \<open>explain_for_payload\<close> returns at most 5 {token, weight} pairs.
  On the model path (tag \<open>linear_contribution\<close>) the list is non-empty, every
  weight is at most 1 in absolute value, and the maximum absolute weight is exactly 1
  unless all the weights are 0. On the fallback path (tag
  \<open>feature_importances\<close>) the list holds the min(3, number of distinct tokens) most
  frequent tokens of length > 2 of the lower-cased text, each once, in
  descending-frequency order, each with the weight count/10.0, where count is the
  number of occurrences of the token; no token left out occurs more often than a
  listed one. (So the list is empty only when the model gives no contribution and
  the text has no token of length > 2.)
\<close>

theorem C6_explanation_amended:
  "(method_tag (explain_for_payload U model nrm) = ustr ''linear_contribution'' \<or>
    method_tag (explain_for_payload U model nrm) = ustr ''feature_importances'') \<and>
   length (top_tokens (explain_for_payload U model nrm)) \<le> 5 \<and>
   (method_tag (explain_for_payload U model nrm) = ustr ''linear_contribution'' \<longrightarrow>
      top_tokens (explain_for_payload U model nrm) \<noteq> [] \<and>
      (\<forall>tw \<in> set (top_tokens (explain_for_payload U model nrm)). \<bar>weight tw\<bar> \<le> 1) \<and>
      ((\<forall>tw \<in> set (top_tokens (explain_for_payload U model nrm)). weight tw = 0) \<or>
       (\<exists>tw \<in> set (top_tokens (explain_for_payload U model nrm)). \<bar>weight tw\<bar> = 1))) \<and>
   (method_tag (explain_for_payload U model nrm) = ustr ''feature_importances'' \<longrightarrow>
      length (top_tokens (explain_for_payload U model nrm)) = min 3 (card (set (fallback_tokens U nrm))) \<and>
      distinct (map token (top_tokens (explain_for_payload U model nrm))) \<and>
      (\<forall>tw \<in> set (top_tokens (explain_for_payload U model nrm)).
         token tw \<in> set (fallback_tokens U nrm) \<and>
         weight tw = real (count_list (fallback_tokens U nrm) (token tw)) / 10) \<and>
      sorted_wrt (\<lambda>a b. weight b \<le> weight a) (top_tokens (explain_for_payload U model nrm)) \<and>
      (\<forall>t \<in> set (fallback_tokens U nrm).
         t \<notin> token ` set (top_tokens (explain_for_payload U model nrm)) \<longrightarrow>
         (\<forall>tw \<in> set (top_tokens (explain_for_payload U model nrm)).
            count_list (fallback_tokens U nrm) t \<le> count_list (fallback_tokens U nrm) (token tw))))"
proof (cases "top_token_contributions model (py_lower U (full_text nrm)) 5 = []")
  case True
  note E = explain_fallback_path [OF True]
  show ?thesis
    unfolding E using fallback_list [of "fallback_tokens U nrm"]
    by (simp add: method_names [symmetric])
next
  case False
  note E = explain_model_path [OF False]
  show ?thesis
    unfolding E
    using False length_top_token_contributions [of model "py_lower U (full_text nrm)" 5]
      weights_top_token_contributions [of model "py_lower U (full_text nrm)" 5]
    by (simp add: method_names)
qed


text \<open>
  Examples: a model with the contributions 0.5 and -2 (weights 0.25 and -1, largest
  first); no model and the text of the empty invoice; no model and a text of two
  spellings of one name, with U+00DC in upper case and U+00FC in lower case, which
  are one token after lower-casing.
\<close>

theorem C6_explanation_amended_witness:
  "explain_for_payload sample_db (Some (\<lambda>text. [(ustr ''invoice'', 0.5), (ustr ''monitor'', - 2)]))
     empty_invoice =
     \<lparr> method_tag = ustr ''linear_contribution'',
       top_tokens = [\<lparr> token = ustr ''monitor'', weight = - 1 \<rparr>,
                     \<lparr> token = ustr ''invoice'', weight = 0.25 \<rparr>] \<rparr> \<and>
   length (top_tokens (explain_for_payload sample_db None empty_invoice)) = 3 \<and>
   method_tag (explain_for_payload sample_db None empty_invoice) = ustr ''feature_importances'' \<and>
   explain_for_payload sample_db None
     (empty_invoice\<lparr> full_text := [77, 220, 76, 76, 69, 82, 32, 109, 252, 108, 108, 101, 114] \<rparr>) =
     \<lparr> method_tag = ustr ''feature_importances'',
       top_tokens = [\<lparr> token = [109, 252, 108, 108, 101, 114], weight = 0.2 \<rparr>] \<rparr>"
  using C6_explanation_amended [of sample_db "Some (\<lambda>text. [(ustr ''invoice'', 0.5), (ustr ''monitor'', - 2)])" empty_invoice]
    C6_explanation_amended [of sample_db None empty_invoice]
  by (simp add: explain_eval)

end
